theory Spec2Isabelle
  imports Complex_Main "HOL-Library.Word"
begin

section \<open>JavaScript primitives used by the engine\<close>

text \<open>
  The numbers of the scorer, the scheduler and the aggregator are modelled as \<^typ>\<open>real\<close>
  (scores, energies, durations) and as \<^typ>\<open>int\<close> (pitch classes, semitone shifts,
  millisecond timestamps returned by \<open>Date.now()\<close>); the numbers of the feature extractor
  carry the IEEE special values (see there). An optional field \<open>x?: T\<close> is a
  \<^typ>\<open>'a option\<close>. Strings are \<^typ>\<open>string\<close>; the case conversions below are the ASCII
  part of \<open>toUpperCase\<close> / \<open>toLowerCase\<close>.
\<close>

definition toUpperChar :: "char \<Rightarrow> char" where
  "toUpperChar c =
     (let n = (of_char c :: nat) in if 97 \<le> n \<and> n \<le> 122 then char_of (n - 32) else c)"

definition toLowerChar :: "char \<Rightarrow> char" where
  "toLowerChar c =
     (let n = (of_char c :: nat) in if 65 \<le> n \<and> n \<le> 90 then char_of (n + 32) else c)"

definition toUpperCase :: "string \<Rightarrow> string" where
  "toUpperCase s = map toUpperChar s"

definition toLowerCase :: "string \<Rightarrow> string" where
  "toLowerCase s = map toLowerChar s"

text \<open>\<open>s.startsWith(p)\<close>, \<open>s.endsWith(p)\<close>, \<open>s.charAt(i)\<close> and \<open>s.includes(p)\<close>.\<close>

fun startsWith :: "string \<Rightarrow> string \<Rightarrow> bool" where
  "startsWith s [] = True"
| "startsWith [] (p # ps) = False"
| "startsWith (c # cs) (p # ps) = (c = p \<and> startsWith cs ps)"

definition endsWith :: "string \<Rightarrow> string \<Rightarrow> bool" where
  "endsWith s p = (length p \<le> length s \<and> drop (length s - length p) s = p)"

definition charAt :: "string \<Rightarrow> nat \<Rightarrow> string" where
  "charAt s i = (if i < length s then [s ! i] else [])"

fun includesStr :: "string \<Rightarrow> string \<Rightarrow> bool" where
  "includesStr [] p = (p = [])"
| "includesStr (c # cs) p = (startsWith (c # cs) p \<or> includesStr cs p)"

text \<open>
  \<open>s.replace(p, r)\<close> with a string pattern replaces the first occurrence only;
  \<open>s.replace(/p/g, r)\<close> with a literal global pattern replaces every occurrence, scanning
  from the left and resuming after each replaced occurrence.
\<close>

fun replaceFirst :: "string \<Rightarrow> string \<Rightarrow> string \<Rightarrow> string" where
  "replaceFirst p r [] = (if p = [] then r else [])"
| "replaceFirst p r (c # cs) =
     (if startsWith (c # cs) p then r @ drop (length p) (c # cs)
      else c # replaceFirst p r cs)"

function replaceAll :: "string \<Rightarrow> string \<Rightarrow> string \<Rightarrow> string" where
  "replaceAll p r s =
     (if s = [] \<or> p = [] then s
      else if startsWith s p then r @ replaceAll p r (drop (length p) s)
      else hd s # replaceAll p r (tl s))"
  by pat_completeness auto
termination
  by (relation "measure (\<lambda>(p, r, s). length s)") auto

declare replaceAll.simps [simp del]

text \<open>\<open>xs.indexOf(x)\<close>: the first index holding \<open>x\<close>, or \<open>-1\<close>.\<close>

fun indexOf :: "'a list \<Rightarrow> 'a \<Rightarrow> int" where
  "indexOf [] x = -1"
| "indexOf (y # ys) x =
     (if y = x then 0 else (let i = indexOf ys x in if i = -1 then -1 else i + 1))"

text \<open>The remainder operator \<open>%\<close> on integers: the result takes the sign of the dividend.\<close>

definition jsRem :: "int \<Rightarrow> int \<Rightarrow> int" where
  "jsRem a b = sgn a * (\<bar>a\<bar> mod \<bar>b\<bar>)"

text \<open>A string is truthy when it is present and non-empty.\<close>

definition truthy :: "string option \<Rightarrow> bool" where
  "truthy s = (case s of None \<Rightarrow> False | Some t \<Rightarrow> t \<noteq> [])"


section \<open>Data model (\<open>audioUtils.ts\<close>, \<open>SampleAnalysis\<close>)\<close>

record MusicalContext =
  timestamp :: int
  bpm :: "real option"
  beatDensity :: "real option"
  onsets :: "bool list option"
  key :: "string option"
  scale :: "string option"
  energy :: "real option"
  dominantFrequencies :: "real list option"

text \<open>
  The fields of \<open>SampleAnalysis\<close> that the engine reads; its \<open>key\<close> and \<open>scale\<close> are
  \<open>sKey\<close> and \<open>sScale\<close> here, and the \<open>id\<close> of a \<open>UserSample\<close> is \<open>sid\<close>.
\<close>

record SampleAnalysis =
  sKey :: "string option"
  sScale :: "string option"
  sampleType :: "string option"
  moodTags :: "string list option"
  grooveDescription :: "string option"
  suggestedHipHopUses :: "string list option"
  energyLevel :: "real option"
  minimumIntervalMs :: "real option"

record UserSample =
  sid :: string
  name :: string
  metadata :: SampleAnalysis

record PlaybackConfig =
  volume :: "real option"
  pitchShift :: "int option"
  timingOffset :: "real option"


section \<open>Compatibility scorer (\<open>SmartSampleTrigger\<close>)\<close>

definition NUM_CHROMA_BINS :: int where
  "NUM_CHROMA_BINS = 12"

definition PITCH_CLASS_NAMES :: "string list" where
  "PITCH_CLASS_NAMES =
     [''C'', ''C#'', ''D'', ''D#'', ''E'', ''F'', ''F#'', ''G'', ''G#'', ''A'', ''A#'', ''B'']"

definition normalizeKeyName :: "string \<Rightarrow> string" where
  "normalizeKeyName upperKeyName =
     (let normalizedKeyName =
            (if length upperKeyName = 2 \<and> endsWith upperKeyName ''S''
             then charAt upperKeyName 0 @ ''#''
             else if length upperKeyName = 3 \<and> endsWith upperKeyName ''S''
                     \<and> charAt upperKeyName 1 = ''#''
             then charAt upperKeyName 0 @ ''##''
             else upperKeyName)
      in replaceAll ''CB'' ''B''
          (replaceAll ''BB'' ''A#''
            (replaceAll ''AB'' ''G#''
              (replaceAll ''GB'' ''F#''
                (replaceAll ''FB'' ''E''
                  (replaceAll ''EB'' ''D#''
                    (replaceAll ''DB'' ''C#''
                      (replaceFirst ''FLAT'' ''B''
                        (replaceFirst ''SHARP'' ''#'' normalizedKeyName)))))))))"

definition getPitchClass :: "string option \<Rightarrow> int option" where
  "getPitchClass keyName =
     (case keyName of
        None \<Rightarrow> None
      | Some k \<Rightarrow>
          if k = [] then None
          else
            (let normalizedKeyName = normalizeKeyName (toUpperCase k);
                 pcIndex = indexOf PITCH_CLASS_NAMES normalizedKeyName
             in if pcIndex \<noteq> -1 then Some pcIndex
                else if endsWith normalizedKeyName ''B'' \<and> length normalizedKeyName = 2
                then
                  (let noteWithoutFlat = charAt normalizedKeyName 0;
                       originalNoteIndex = indexOf PITCH_CLASS_NAMES noteWithoutFlat
                   in if originalNoteIndex \<noteq> -1
                      then Some (jsRem (originalNoteIndex - 1 + NUM_CHROMA_BINS) NUM_CHROMA_BINS)
                      else None)
                else None))"

definition getSemitoneDifference :: "int \<Rightarrow> int \<Rightarrow> int" where
  "getSemitoneDifference pc1 pc2 =
     (let diff = pc2 - pc1;
          diff = (if diff > 6 then diff - 12 else diff);
          diff = (if diff < -6 then diff + 12 else diff)
      in diff)"

record KeyCompat =
  score :: real
  pitchShiftSemitones :: int

definition calculateKeyCompatibility ::
  "string option \<Rightarrow> string option \<Rightarrow> string option \<Rightarrow> string option \<Rightarrow> KeyCompat" where
  "calculateKeyCompatibility contextKey contextScale sampleKey sampleScale =
     (case (contextScale, sampleScale) of
        (Some ctxScale, Some smpScale) \<Rightarrow>
          if \<not> truthy contextKey \<or> \<not> truthy sampleKey \<or> ctxScale = [] \<or> smpScale = []
          then \<lparr>score = 0.5, pitchShiftSemitones = 0\<rparr>
          else
            (let contextPitchClass = getPitchClass contextKey;
                 samplePitchClass = getPitchClass sampleKey;
                 shift = (case (contextPitchClass, samplePitchClass) of
                            (Some c, Some s) \<Rightarrow> getSemitoneDifference s c
                          | _ \<Rightarrow> 0);
                 shiftedSamplePitchClass =
                   (case samplePitchClass of
                      Some s \<Rightarrow> Some (jsRem (s + shift + 12) 12)
                    | None \<Rightarrow> None);
                 sameScale = (toLowerCase ctxScale = toLowerCase smpScale)
             in \<lparr>score =
                   (if contextPitchClass \<noteq> None \<and> shiftedSamplePitchClass \<noteq> None
                       \<and> contextPitchClass = shiftedSamplePitchClass
                    then (if sameScale then 1.0 else 0.8)
                    else if sameScale then 0.7
                    else if contextPitchClass \<noteq> None \<and> shiftedSamplePitchClass \<noteq> None
                    then 0.5
                    else 0.3),
                 pitchShiftSemitones = shift\<rparr>)
      | _ \<Rightarrow> \<lparr>score = 0.5, pitchShiftSemitones = 0\<rparr>)"

definition calculateEnergyMatch :: "real option \<Rightarrow> real option \<Rightarrow> real" where
  "calculateEnergyMatch contextEnergy sampleEnergy =
     (case (contextEnergy, sampleEnergy) of
        (Some ce, Some se) \<Rightarrow>
          (let normalizedSampleEnergy = (se - 1) / 9;
               diff = \<bar>ce - normalizedSampleEnergy\<bar>
           in max 0 (1 - diff * 1.5))
      | _ \<Rightarrow> 0.5)"

definition calculateRhythmicFit :: "real option \<Rightarrow> string option \<Rightarrow> real" where
  "calculateRhythmicFit contextDensity sampleGrooveDesc =
     (case contextDensity of
        None \<Rightarrow> 0.5
      | Some d \<Rightarrow>
          (let score =
                 (if truthy sampleGrooveDesc then
                    (let desc = toLowerCase (case sampleGrooveDesc of Some g \<Rightarrow> g | None \<Rightarrow> [])
                     in if includesStr desc ''sparse'' \<or> includesStr desc ''minimal''
                           \<or> includesStr desc ''ambient''
                        then (1 - d) * 0.8 + 0.1
                        else if includesStr desc ''dense'' \<or> includesStr desc ''complex''
                                \<or> includesStr desc ''active'' \<or> includesStr desc ''driving''
                        then d * 0.8 + 0.1
                        else if includesStr desc ''percussive'' \<or> includesStr desc ''rhythmic''
                        then 0.6 + d * 0.2
                        else 0.5)
                  else 0.5 - \<bar>d - 0.5\<bar>)
           in max 0 (min 1 score)))"

text \<open>The combined score that \<open>shouldTriggerSample\<close> compares with the threshold.\<close>

definition totalScore :: "UserSample \<Rightarrow> 'a MusicalContext_scheme \<Rightarrow> real" where
  "totalScore sample context =
     score (calculateKeyCompatibility (key context) (scale context)
              (sKey (metadata sample)) (sScale (metadata sample))) * 0.4
     + calculateEnergyMatch (energy context) (energyLevel (metadata sample)) * 0.3
     + calculateRhythmicFit (beatDensity context) (grooveDescription (metadata sample)) * 0.3"


section \<open>Playback sink (\<open>AudioMixer\<close>)\<close>

text \<open>
  The Web Audio calls are external. \<open>decodeAndStoreAudioBuffer\<close> catches every error itself
  and answers with a boolean (\<open>True\<close> also when the sample already holds a decoded buffer);
  the remaining calls of \<open>playSample\<close> (\<open>createBufferSource\<close> ... \<open>source.start\<close>) are not
  guarded, so an exception raised there leaves \<open>playSample\<close> as a rejected promise.
\<close>

datatype error = Error string

datatype played = Started | NotDecoded

record AudioMixer =
  decodeAndStoreAudioBuffer :: "UserSample \<Rightarrow> bool"
  startSource :: "UserSample \<Rightarrow> PlaybackConfig \<Rightarrow> error option"

definition playSample :: "AudioMixer \<Rightarrow> UserSample \<Rightarrow> PlaybackConfig \<Rightarrow> error + played" where
  "playSample mixer sample config =
     (if \<not> decodeAndStoreAudioBuffer mixer sample then Inr NotDecoded
      else (case startSource mixer sample config of
              Some e \<Rightarrow> Inl e
            | None \<Rightarrow> Inr Started))"


section \<open>Trigger scheduler (\<open>SmartSampleTrigger\<close>)\<close>

text \<open>
  \<open>Date.now()\<close> is read from a clock: \<open>clock k\<close> is the value of the \<open>k\<close>-th reading, and
  the state counts the readings made so far. \<open>playCalls\<close> logs every call of
  \<open>audioMixer.playSample\<close>, \<open>notified\<close> every call of \<open>onSampleTriggeredCallback\<close>.
\<close>

record TriggerState =
  samples :: "UserSample list"
  lastTriggerTimes :: "string \<rightharpoonup> int"
  nowCalls :: nat
  playCalls :: "(UserSample \<times> PlaybackConfig) list"
  notified :: "(UserSample \<times> MusicalContext \<times> PlaybackConfig) list"

definition dateNow :: "(nat \<Rightarrow> int) \<Rightarrow> TriggerState \<Rightarrow> int \<times> TriggerState" where
  "dateNow clock st = (clock (nowCalls st), st\<lparr>nowCalls := Suc (nowCalls st)\<rparr>)"

definition updateSamples :: "UserSample list \<Rightarrow> TriggerState \<Rightarrow> TriggerState" where
  "updateSamples newSamples st = st\<lparr>samples := newSamples\<rparr>"

record Decision =
  trigger :: bool
  shiftBy :: int

definition shouldTriggerSample ::
  "(nat \<Rightarrow> int) \<Rightarrow> TriggerState \<Rightarrow> UserSample \<Rightarrow> MusicalContext \<Rightarrow> Decision \<times> TriggerState" where
  "shouldTriggerSample clock st sample context =
     (if sampleType (metadata sample) \<noteq> Some ''one-shot''
         \<and> sampleType (metadata sample) \<noteq> Some ''fx''
      then (\<lparr>trigger = False, shiftBy = 0\<rparr>, st)
      else
        (let minInterval = (case minimumIntervalMs (metadata sample) of
                              Some m \<Rightarrow> m | None \<Rightarrow> 3000);
             lastTriggerTime = (case lastTriggerTimes st (sid sample) of
                                  Some t \<Rightarrow> t | None \<Rightarrow> 0);
             (now, st') = dateNow clock st
         in if real_of_int (now - lastTriggerTime) < minInterval
            then (\<lparr>trigger = False, shiftBy = 0\<rparr>, st')
            else
              (let keyCompat = calculateKeyCompatibility (key context) (scale context)
                                 (sKey (metadata sample)) (sScale (metadata sample))
               in (\<lparr>trigger = (totalScore sample context > 0.7),
                    shiftBy = pitchShiftSemitones keyCompat\<rparr>, st'))))"

definition calculatePlaybackConfig ::
  "UserSample \<Rightarrow> MusicalContext \<Rightarrow> int \<Rightarrow> PlaybackConfig" where
  "calculatePlaybackConfig sample context shift =
     (let volume0 =
            (if (case suggestedHipHopUses (metadata sample) of
                   Some uses \<Rightarrow> ''background'' \<in> set uses | None \<Rightarrow> False)
                \<or> (case moodTags (metadata sample) of
                     Some tags \<Rightarrow> ''ambient'' \<in> set tags | None \<Rightarrow> False)
             then 0.4 else 0.7 :: real);
          volume1 =
            (case energy context of
               None \<Rightarrow> volume0
             | Some e \<Rightarrow> if e < 0.3 then volume0 * 0.7
                         else if e > 0.7 then volume0 * 1.1
                         else volume0);
          volume2 = max 0.1 (min 1.0 volume1)
      in \<lparr>volume = Some volume2, pitchShift = Some shift, timingOffset = None\<rparr>)"

text \<open>The first loop of \<open>evaluateAndTrigger\<close>: it fills the local \<open>eligibleSamples\<close>.\<close>

fun selectEligible ::
  "(nat \<Rightarrow> int) \<Rightarrow> MusicalContext \<Rightarrow> UserSample list \<Rightarrow> TriggerState
     \<Rightarrow> (UserSample \<times> int) list \<times> TriggerState" where
  "selectEligible clock context [] st = ([], st)"
| "selectEligible clock context (sample # rest) st =
     (let (d, st1) = shouldTriggerSample clock st sample context;
          (eligibleSamples, st2) = selectEligible clock context rest st1
      in (if trigger d then (sample, shiftBy d) # eligibleSamples else eligibleSamples, st2))"

text \<open>
  The second loop. Nothing catches a rejected \<open>playSample\<close>: the loop ends there and the
  rejection is the result of \<open>evaluateAndTrigger\<close>.
\<close>

fun fireAll ::
  "AudioMixer \<Rightarrow> (nat \<Rightarrow> int) \<Rightarrow> MusicalContext \<Rightarrow> (UserSample \<times> int) list \<Rightarrow> TriggerState
     \<Rightarrow> (error + unit) \<times> TriggerState" where
  "fireAll mixer clock context [] st = (Inr (), st)"
| "fireAll mixer clock context ((sample, shift) # rest) st =
     (let playbackConfig = calculatePlaybackConfig sample context shift;
          st1 = st\<lparr>playCalls := playCalls st @ [(sample, playbackConfig)]\<rparr>
      in case playSample mixer sample playbackConfig of
           Inl e \<Rightarrow> (Inl e, st1)
         | Inr _ \<Rightarrow>
             (let (now, st2) = dateNow clock st1;
                  st3 = st2\<lparr>lastTriggerTimes := (lastTriggerTimes st2)(sid sample \<mapsto> now),
                            notified := notified st2 @ [(sample, context, playbackConfig)]\<rparr>
              in fireAll mixer clock context rest st3))"

definition evaluateAndTrigger ::
  "AudioMixer \<Rightarrow> (nat \<Rightarrow> int) \<Rightarrow> MusicalContext \<Rightarrow> TriggerState
     \<Rightarrow> (error + unit) \<times> TriggerState" where
  "evaluateAndTrigger mixer clock musicContext st =
     (let (eligibleSamples, st1) = selectEligible clock musicContext (samples st) st
      in fireAll mixer clock musicContext eligibleSamples st1)"


section \<open>Streaming buffer aggregator (\<open>ContextAwareLyriaSession\<close>)\<close>

text \<open>
  Of an \<open>AudioBuffer\<close> the engine reads the length in sample frames, the channel count and
  the sample rate. \<open>audioContext.sampleRate\<close> is a field of the session; the Web Audio API
  gives it a positive value.
\<close>

record AudioBuffer =
  frames :: nat
  numberOfChannels :: nat
  bufferSampleRate :: real

record LyriaSession =
  sampleRate :: real
  audioBufferQueue :: "AudioBuffer list"
  lastAnalysisTime :: int
  accumulatedBufferLength :: int
  analysisSnapshots :: "AudioBuffer list list"

definition maxBufferDurationSecs :: real where
  "maxBufferDurationSecs = 2.0"

definition analysisIntervalMs :: int where
  "analysisIntervalMs = 500"

definition newSession :: "real \<Rightarrow> LyriaSession" where
  "newSession sr =
     \<lparr>sampleRate = sr, audioBufferQueue = [], lastAnalysisTime = 0,
      accumulatedBufferLength = 0, analysisSnapshots = []\<rparr>"

text \<open>
  The \<open>while\<close> loop of \<open>handleNewLyriaAudioBuffer\<close>: the queue and the running length
  after shifting buffers off the front while the buffered duration exceeds the cap.
\<close>

fun evict :: "real \<Rightarrow> AudioBuffer list \<Rightarrow> int \<Rightarrow> AudioBuffer list \<times> int" where
  "evict sr [] acc = ([], acc)"
| "evict sr (oldestBuffer # rest) acc =
     (if real_of_int acc / sr > maxBufferDurationSecs
      then evict sr rest (acc - int (frames oldestBuffer))
      else (oldestBuffer # rest, acc))"

text \<open>
  \<open>performAnalysis\<close> copies the queue before its first \<open>await\<close> and never writes the queue
  or the running length; the model records the copy it took.
\<close>

definition handleNewLyriaAudioBuffer ::
  "int \<Rightarrow> AudioBuffer option \<Rightarrow> LyriaSession \<Rightarrow> LyriaSession" where
  "handleNewLyriaAudioBuffer now lyriaBuffer st =
     (case lyriaBuffer of
        None \<Rightarrow> st
      | Some b \<Rightarrow>
          if frames b = 0 then st
          else
            (let (queue, acc) =
                   evict (sampleRate st) (audioBufferQueue st @ [b])
                     (accumulatedBufferLength st + int (frames b));
                 st1 = st\<lparr>audioBufferQueue := queue, accumulatedBufferLength := acc\<rparr>
             in if now - lastAnalysisTime st1 > analysisIntervalMs \<and> queue \<noteq> []
                then st1\<lparr>analysisSnapshots := analysisSnapshots st1 @ [queue],
                         lastAnalysisTime := now\<rparr>
                else st1))"

text \<open>A session as it stands after a sequence of ingestion calls on a new instance.\<close>

definition sessionAfter :: "real \<Rightarrow> (int \<times> AudioBuffer option) list \<Rightarrow> LyriaSession" where
  "sessionAfter sr calls =
     foldl (\<lambda>st (now, b). handleNewLyriaAudioBuffer now b st) (newSession sr) calls"

definition queuedFrames :: "AudioBuffer list \<Rightarrow> int" where
  "queuedFrames q = sum_list (map (\<lambda>b. int (frames b)) q)"


section \<open>Spectral feature extractor (\<open>AudioContextAnalyzer\<close>)\<close>

text \<open>
  The analyser node is external. A reading of it gives, per frequency bin, the byte
  magnitude of \<open>getByteFrequencyData\<close> and the decibel value of \<open>getFloatFrequencyData\<close>,
  which is \<open>-Infinity\<close> for a bin without energy. The typed arrays of the class have the
  fixed length \<open>frequencyBinCount\<close> and are modelled as functions of the bin index.
\<close>

datatype decibel = NegInfinity | Finite real

record AnalyserReading =
  byteFrequencyData :: "nat \<Rightarrow> 8 word"
  floatFrequencyData :: "nat \<Rightarrow> decibel"

definition fftSize :: nat where
  "fftSize = 2048"

definition frequencyBinCount :: nat where
  "frequencyBinCount = fftSize div 2"

definition FLUX_HISTORY_SIZE :: nat where
  "FLUX_HISTORY_SIZE = 30"

text \<open>
  The extractor divides by quantities that can vanish and keeps its spectra in
  \<open>Float32Array\<close>s, so its numbers carry the special values of IEEE 754: \<open>Num x\<close> is a
  finite number, \<open>PosInf\<close> and \<open>NegInf\<close> are the infinities, \<open>NaN\<close> is not-a-number. The
  operations treat the special values as JavaScript does (\<open>Infinity - Infinity\<close>,
  \<open>Infinity / Infinity\<close>, \<open>0 / 0\<close> and \<open>0 * Infinity\<close> are \<open>NaN\<close>; a comparison with \<open>NaN\<close>
  is false; \<open>Math.max\<close> and \<open>Math.min\<close> return \<open>NaN\<close> when an argument is \<open>NaN\<close>). On finite
  values they are exact: rounding is not modelled, zero has no sign, and a finite
  result is never replaced by an infinity except when it is stored as a 32-bit float.
\<close>

datatype number = Num real | PosInf | NegInf | NaN

fun numAdd :: "number \<Rightarrow> number \<Rightarrow> number" where
  "numAdd (Num a) (Num b) = Num (a + b)"
| "numAdd NaN b = NaN"
| "numAdd a NaN = NaN"
| "numAdd PosInf NegInf = NaN"
| "numAdd NegInf PosInf = NaN"
| "numAdd PosInf b = PosInf"
| "numAdd a PosInf = PosInf"
| "numAdd NegInf b = NegInf"
| "numAdd a NegInf = NegInf"

fun numNeg :: "number \<Rightarrow> number" where
  "numNeg (Num a) = Num (- a)"
| "numNeg PosInf = NegInf"
| "numNeg NegInf = PosInf"
| "numNeg NaN = NaN"

definition numSub :: "number \<Rightarrow> number \<Rightarrow> number" where
  "numSub a b = numAdd a (numNeg b)"

fun numMul :: "number \<Rightarrow> number \<Rightarrow> number" where
  "numMul (Num a) (Num b) = Num (a * b)"
| "numMul NaN b = NaN"
| "numMul a NaN = NaN"
| "numMul (Num a) PosInf = (if a = 0 then NaN else if a > 0 then PosInf else NegInf)"
| "numMul (Num a) NegInf = (if a = 0 then NaN else if a > 0 then NegInf else PosInf)"
| "numMul PosInf (Num b) = (if b = 0 then NaN else if b > 0 then PosInf else NegInf)"
| "numMul NegInf (Num b) = (if b = 0 then NaN else if b > 0 then NegInf else PosInf)"
| "numMul PosInf PosInf = PosInf"
| "numMul NegInf NegInf = PosInf"
| "numMul PosInf NegInf = NegInf"
| "numMul NegInf PosInf = NegInf"

fun numDiv :: "number \<Rightarrow> number \<Rightarrow> number" where
  "numDiv (Num a) (Num b) =
     (if b = 0 then (if a = 0 then NaN else if a > 0 then PosInf else NegInf)
      else Num (a / b))"
| "numDiv NaN b = NaN"
| "numDiv a NaN = NaN"
| "numDiv (Num a) PosInf = Num 0"
| "numDiv (Num a) NegInf = Num 0"
| "numDiv PosInf (Num b) = (if b < 0 then NegInf else PosInf)"
| "numDiv NegInf (Num b) = (if b < 0 then PosInf else NegInf)"
| "numDiv PosInf PosInf = NaN"
| "numDiv PosInf NegInf = NaN"
| "numDiv NegInf PosInf = NaN"
| "numDiv NegInf NegInf = NaN"

text \<open>\<open>a < b\<close>; \<open>a > b\<close> is \<open>numLess b a\<close>.\<close>

fun numLess :: "number \<Rightarrow> number \<Rightarrow> bool" where
  "numLess (Num a) (Num b) = (a < b)"
| "numLess NaN b = False"
| "numLess a NaN = False"
| "numLess PosInf b = False"
| "numLess a NegInf = False"
| "numLess a PosInf = True"
| "numLess NegInf b = True"

definition isNaN :: "number \<Rightarrow> bool" where
  "isNaN a = (a = NaN)"

definition mathMax :: "number \<Rightarrow> number \<Rightarrow> number" where
  "mathMax a b = (if isNaN a \<or> isNaN b then NaN else if numLess a b then b else a)"

definition mathMin :: "number \<Rightarrow> number \<Rightarrow> number" where
  "mathMin a b = (if isNaN a \<or> isNaN b then NaN else if numLess b a then b else a)"

fun mathSqrt :: "number \<Rightarrow> number" where
  "mathSqrt (Num a) = (if a < 0 then NaN else Num (sqrt a))"
| "mathSqrt PosInf = PosInf"
| "mathSqrt NegInf = NaN"
| "mathSqrt NaN = NaN"

text \<open>\<open>Math.pow(a, 2)\<close>.\<close>

definition mathPow2 :: "number \<Rightarrow> number" where
  "mathPow2 a = numMul a a"

text \<open>
  Storing into a \<open>Float32Array\<close>: a value whose magnitude reaches the midpoint between
  the largest 32-bit float and \<open>2 ^ 128\<close> becomes an infinity.
\<close>

definition float32Limit :: real where
  "float32Limit = 2 ^ 128 - 2 ^ 103"

fun toFloat32 :: "number \<Rightarrow> number" where
  "toFloat32 (Num x) =
     (if x \<ge> float32Limit then PosInf else if x \<le> - float32Limit then NegInf else Num x)"
| "toFloat32 PosInf = PosInf"
| "toFloat32 NegInf = NegInf"
| "toFloat32 NaN = NaN"

text \<open>The numbers from 0 up to and including \<open>Infinity\<close>.\<close>

fun nonNegative :: "number \<Rightarrow> bool" where
  "nonNegative (Num x) = (0 \<le> x)"
| "nonNegative PosInf = True"
| "nonNegative NegInf = False"
| "nonNegative NaN = False"

text \<open>
  The snapshot hands energy and beat density on to the scorer, whose arithmetic is
  modelled on the reals; both are finite numbers whenever the analyser's float data are
  finite or \<open>-Infinity\<close> (see the properties of the feature extractor).
\<close>

fun finiteValue :: "number \<Rightarrow> real" where
  "finiteValue (Num x) = x"
| "finiteValue PosInf = 0"
| "finiteValue NegInf = 0"
| "finiteValue NaN = 0"

record AnalyzerState =
  prevSpectrum :: "nat \<Rightarrow> number"
  spectralFluxHistory :: "number list"

definition newAnalyzer :: AnalyzerState where
  "newAnalyzer = \<lparr>prevSpectrum = (\<lambda>i. Num 0), spectralFluxHistory = []\<rparr>"

definition frequencyData :: "AnalyserReading \<Rightarrow> nat list" where
  "frequencyData reading = map (\<lambda>i. unat (byteFrequencyData reading i)) [0..<frequencyBinCount]"

definition getFrequencySpectrum :: "real \<Rightarrow> AnalyserReading \<Rightarrow> real list" where
  "getFrequencySpectrum sr reading =
     (let binWidth = sr / real fftSize;
          peaks = map (\<lambda>i. (real i * binWidth, unat (byteFrequencyData reading i)))
                    (filter (\<lambda>i. unat (byteFrequencyData reading i) > 128)
                       [0..<frequencyBinCount]);
          sorted = sort_key (\<lambda>p. - int (snd p)) peaks
      in map fst (take 5 sorted))"

definition calculateEnergy :: "AnalyserReading \<Rightarrow> number" where
  "calculateEnergy reading =
     (let sum = foldl (\<lambda>s v. numAdd s (Num (real v))) (Num 0) (frequencyData reading);
          average = numDiv sum (Num (real (length (frequencyData reading))))
      in mathMin (numDiv average (Num 128)) (Num 1.0))"

text \<open>
  The first loop of \<open>detectOnsetsAndDensity\<close> writes the linear magnitude back into the
  \<open>Float32Array\<close> that held the decibel value.
\<close>

definition toLinear :: "decibel \<Rightarrow> number" where
  "toLinear d =
     (case d of
        NegInfinity \<Rightarrow> Num 0
      | Finite x \<Rightarrow> if x < -100 then Num 0 else toFloat32 (Num (10 powr (x / 20))))"

text \<open>The result of \<open>detectOnsetsAndDensity\<close> (\<open>onsets\<close>, \<open>beatDensity\<close>).\<close>

record OnsetInfo =
  onsetFlags :: "bool list"
  density :: number

text \<open>The second loop of \<open>detectOnsetsAndDensity\<close>: the rectified spectral flux.\<close>

definition spectralFluxOf :: "(nat \<Rightarrow> number) \<Rightarrow> (nat \<Rightarrow> number) \<Rightarrow> number" where
  "spectralFluxOf currentSpectrum previous =
     foldl (\<lambda>flux i. let diff = numSub (currentSpectrum i) (previous i)
                      in if numLess (Num 0) diff then numAdd flux diff else flux)
       (Num 0) [0..<frequencyBinCount]"

definition detectOnsetsAndDensity ::
  "AnalyserReading \<Rightarrow> AnalyzerState \<Rightarrow> OnsetInfo \<times> AnalyzerState" where
  "detectOnsetsAndDensity reading st =
     (let currentSpectrum = (\<lambda>i. toLinear (floatFrequencyData reading i));
          spectralFlux = spectralFluxOf currentSpectrum (prevSpectrum st);
          pushed = spectralFluxHistory st @ [spectralFlux];
          history = (if length pushed > FLUX_HISTORY_SIZE then tl pushed else pushed);
          st' = \<lparr>prevSpectrum = currentSpectrum, spectralFluxHistory = history\<rparr>
      in if length history = 0 then (\<lparr>onsetFlags = [False], density = Num 0\<rparr>, st')
         else
           (let meanFlux = numDiv (foldl (\<lambda>s v. numAdd s v) (Num 0) history)
                             (Num (real (length history)));
                variance0 = foldl (\<lambda>s flux. numAdd s (mathPow2 (numSub flux meanFlux)))
                              (Num 0) history;
                variance = (if length history > 0
                            then numDiv variance0 (Num (real (length history)))
                            else Num 0);
                stdDevFlux = mathSqrt variance;
                fluxThreshold = numAdd meanFlux (numMul stdDevFlux (Num 1.5));
                onsetDetected = (numLess fluxThreshold spectralFlux
                                 \<and> numLess (Num 0.01) spectralFlux);
                beatDensityDenominator = numAdd meanFlux (Num (1 / 1000000));
                rawDensity =
                  (if beatDensityDenominator = Num 0 then Num 0
                   else numDiv (numSub (numDiv spectralFlux beatDensityDenominator) (Num 1))
                          (Num 5));
                beatDensity = mathMin (Num 1) (mathMax (Num 0) rawDensity)
            in (\<lparr>onsetFlags = [onsetDetected],
                 density = (if isNaN beatDensity then Num 0 else beatDensity)\<rparr>, st')))"

text \<open>The key templates in the iteration order of \<open>KEY_TEMPLATES\<close>.\<close>

definition KEY_TEMPLATES :: "(string \<times> string \<times> real list) list" where
  "KEY_TEMPLATES =
    [(''Major'', ''C'', [1, 0, 1, 0, 1, 1, 0, 1, 0, 1, 0, 1]),
     (''Major'', ''G'', [1, 0, 1, 0, 1, 0, 1, 1, 0, 1, 0, 1]),
     (''Major'', ''D'', [1, 0, 1, 0, 1, 0, 1, 0, 1, 1, 0, 1]),
     (''Major'', ''A'', [1, 0, 1, 1, 0, 1, 0, 1, 0, 1, 0, 1]),
     (''Major'', ''E'', [1, 0, 1, 0, 1, 1, 0, 1, 0, 1, 1, 0]),
     (''Major'', ''B'', [0, 1, 0, 1, 1, 0, 1, 0, 1, 0, 1, 1]),
     (''Major'', ''Gb'', [0, 1, 0, 1, 1, 0, 1, 0, 1, 1, 0, 1]),
     (''Major'', ''Db'', [1, 0, 1, 1, 0, 1, 0, 1, 0, 1, 1, 0]),
     (''Major'', ''Ab'', [1, 1, 0, 1, 0, 1, 1, 0, 1, 0, 1, 0]),
     (''Major'', ''Eb'', [0, 1, 1, 0, 1, 1, 0, 1, 0, 1, 0, 1]),
     (''Major'', ''Bb'', [1, 0, 1, 0, 1, 1, 0, 1, 1, 0, 1, 0]),
     (''Major'', ''F'', [1, 0, 1, 0, 1, 1, 1, 0, 1, 0, 1, 0]),
     (''Minor'', ''A'', [1, 0, 1, 1, 0, 1, 0, 1, 1, 0, 0, 1]),
     (''Minor'', ''E'', [1, 0, 1, 0, 1, 1, 0, 1, 0, 1, 0, 1]),
     (''Minor'', ''B'', [1, 0, 1, 0, 1, 0, 1, 1, 0, 1, 0, 1]),
     (''Minor'', ''F#'', [1, 1, 0, 1, 0, 1, 0, 1, 1, 0, 1, 0]),
     (''Minor'', ''C#'', [0, 1, 1, 0, 1, 0, 1, 0, 1, 1, 0, 1]),
     (''Minor'', ''G#'', [1, 0, 1, 1, 0, 1, 0, 1, 0, 1, 1, 0]),
     (''Minor'', ''D#'', [0, 1, 0, 1, 1, 0, 1, 1, 0, 1, 0, 1]),
     (''Minor'', ''A#'', [1, 1, 0, 1, 0, 1, 1, 0, 1, 0, 1, 0]),
     (''Minor'', ''D'', [1, 0, 1, 1, 0, 1, 0, 1, 0, 1, 0, 1]),
     (''Minor'', ''G'', [1, 0, 1, 0, 1, 1, 0, 1, 1, 0, 0, 1]),
     (''Minor'', ''C'', [1, 1, 0, 1, 1, 0, 1, 0, 1, 0, 0, 1]),
     (''Minor'', ''F'', [1, 0, 1, 1, 0, 1, 1, 0, 1, 0, 1, 0])]"

text \<open>\<open>Math.round\<close> rounds a half towards plus infinity.\<close>

definition mathRound :: "real \<Rightarrow> int" where
  "mathRound x = \<lfloor>x + 1 / 2\<rfloor>"

definition estimateKeyFromChroma ::
  "real \<Rightarrow> AnalyserReading \<Rightarrow> string option \<times> string option" where
  "estimateKeyFromChroma sr reading =
     (let binWidth = sr / real fftSize;
          chroma =
            foldl (\<lambda>chroma i.
                     let freq = real i * binWidth
                     in if freq = 0 then chroma
                        else
                          (let midiNote = 69 + 12 * log 2 (freq / 440);
                               pitchClass = jsRem (mathRound midiNote) NUM_CHROMA_BINS
                           in if pitchClass \<ge> 0 \<and> pitchClass < NUM_CHROMA_BINS
                              then chroma[nat pitchClass :=
                                     chroma ! nat pitchClass
                                       + real (unat (byteFrequencyData reading i))]
                              else chroma))
              (replicate (nat NUM_CHROMA_BINS) 0) [0..<frequencyBinCount];
          sum = foldl (\<lambda>s v. s + v) 0 chroma
      in if sum = 0 then (None, None)
         else
           (let normalizedChroma = map (\<lambda>v. v / sum) chroma;
                bestMatch =
                  foldl (\<lambda>(bestKey, bestScale, bestScore) (scaleName, keyName, template).
                           let score = foldl (\<lambda>s i. s + normalizedChroma ! i * template ! i)
                                         0 [0..<nat NUM_CHROMA_BINS]
                           in if score > bestScore then (Some keyName, Some scaleName, score)
                              else (bestKey, bestScale, bestScore))
                    (None, None, -1) KEY_TEMPLATES
            in (fst bestMatch, fst (snd bestMatch))))"

definition defaultContext :: "int \<Rightarrow> MusicalContext" where
  "defaultContext now =
     \<lparr>timestamp = now, bpm = None, beatDensity = Some 0, onsets = Some [False],
      key = None, scale = None, energy = Some 0, dominantFrequencies = Some []\<rparr>"

text \<open>
  \<open>route\<close> stands for playing the buffer into the analyser node (\<open>createBufferSource\<close>,
  \<open>connect\<close>, \<open>start\<close>, the timeout): it either throws or leaves the analyser with a
  reading. \<open>now\<close> and \<open>nowAfter\<close> are the two readings of \<open>Date.now()\<close>.
\<close>

definition analyzeRealTimeContext ::
  "real \<Rightarrow> (AudioBuffer \<Rightarrow> error + AnalyserReading) \<Rightarrow> int \<Rightarrow> int \<Rightarrow> AudioBuffer option
     \<Rightarrow> AnalyzerState \<Rightarrow> (error + MusicalContext) \<times> AnalyzerState" where
  "analyzeRealTimeContext sr route now nowAfter inputBuffer st =
     (case inputBuffer of
        None \<Rightarrow> (Inr (defaultContext now), st)
      | Some buf \<Rightarrow>
          if frames buf = 0 then (Inr (defaultContext now), st)
          else
            (case route buf of
               Inl e \<Rightarrow> (Inl e, st)
             | Inr reading \<Rightarrow>
                 (let (onsetInfo, st') = detectOnsetsAndDensity reading st;
                      keyInfo = estimateKeyFromChroma sr reading
                  in (Inr \<lparr>timestamp = nowAfter, bpm = None,
                           beatDensity = Some (finiteValue (density onsetInfo)),
                           onsets = Some (onsetFlags onsetInfo),
                           key = fst keyInfo, scale = snd keyInfo,
                           energy = Some (finiteValue (calculateEnergy reading)),
                           dominantFrequencies = Some (getFrequencySpectrum sr reading)\<rparr>,
                      st'))))"

text \<open>An analyzer as it stands after a sequence of analyser readings on a new instance.\<close>

definition analyzerAfter :: "AnalyserReading list \<Rightarrow> AnalyzerState" where
  "analyzerAfter readings =
     foldl (\<lambda>st reading. snd (detectOnsetsAndDensity reading st)) newAnalyzer readings"


section \<open>Transposition of key names\<close>

text \<open>
  What transposing a key means is not in the source; it is the musical reading of a key
  name, written without reference to \<open>getPitchClass\<close>. A name is a note letter \<open>C\<close> to
  \<open>B\<close> with at most one accidental, \<open>#\<close> or \<open>b\<close>; \<open>noteSemitone\<close> is its semitone above C
  (so \<open>B#\<close> is 0 and \<open>Cb\<close> is 11). Transposing by \<open>n\<close> semitones gives the name, in sharp
  notation, of the semitone \<open>n\<close> higher; any other string has no transposition and is
  left as it is.
\<close>

definition letterSemitone :: "char \<Rightarrow> int option" where
  "letterSemitone c =
     map_of [(CHR ''C'', 0), (CHR ''D'', 2), (CHR ''E'', 4), (CHR ''F'', 5), (CHR ''G'', 7),
             (CHR ''A'', 9), (CHR ''B'', 11)] c"

fun noteSemitone :: "string \<Rightarrow> int option" where
  "noteSemitone [l] = letterSemitone l"
| "noteSemitone [l, a] =
     (case letterSemitone l of
        None \<Rightarrow> None
      | Some p \<Rightarrow> if a = CHR ''#'' then Some ((p + 1) mod 12)
                  else if a = CHR ''b'' then Some ((p - 1) mod 12)
                  else None)"
| "noteSemitone k = None"


text \<open>The twenty-one names that have a semitone.\<close>

definition noteNames :: "string list" where
  "noteNames =
     [''C'', ''D'', ''E'', ''F'', ''G'', ''A'', ''B'',
      ''C#'', ''D#'', ''E#'', ''F#'', ''G#'', ''A#'', ''B#'',
      ''Cb'', ''Db'', ''Eb'', ''Fb'', ''Gb'', ''Ab'', ''Bb'']"


section \<open>Concrete inputs\<close>

text \<open>
  The context of the end-to-end scenarios, two one-shots that match it, the \<open>fx\<close> sample
  that does not, a mixer whose Web Audio calls throw for the sample \<open>kick\<close>, and a clock
  that advances one millisecond per reading.
\<close>

definition scenarioContext :: MusicalContext where
  "scenarioContext =
     \<lparr>timestamp = 0, bpm = None, beatDensity = Some 0.9, onsets = None,
      key = Some ''C'', scale = Some ''Major'', energy = Some 0.8,
      dominantFrequencies = None\<rparr>"

definition scenarioOneShot :: "string \<Rightarrow> UserSample" where
  "scenarioOneShot i =
     \<lparr>sid = i, name = i,
      metadata = \<lparr>sKey = Some ''C'', sScale = Some ''Major'', sampleType = Some ''one-shot'',
                  moodTags = None, grooveDescription = Some ''dense driving percussion'',
                  suggestedHipHopUses = None, energyLevel = Some 9,
                  minimumIntervalMs = Some 0\<rparr>\<rparr>"

definition scenarioFx :: UserSample where
  "scenarioFx =
     \<lparr>sid = ''fx'', name = ''fx'',
      metadata = \<lparr>sKey = Some ''F#'', sScale = Some ''Minor'', sampleType = Some ''fx'',
                  moodTags = None, grooveDescription = Some ''sparse ambient'',
                  suggestedHipHopUses = None, energyLevel = Some 2,
                  minimumIntervalMs = Some 0\<rparr>\<rparr>"

definition scenarioLoop :: UserSample where
  "scenarioLoop =
     \<lparr>sid = ''loop'', name = ''loop'',
      metadata = \<lparr>sKey = Some ''C'', sScale = Some ''Major'', sampleType = Some ''loop'',
                  moodTags = None, grooveDescription = Some ''dense driving percussion'',
                  suggestedHipHopUses = None, energyLevel = Some 9,
                  minimumIntervalMs = Some 0\<rparr>\<rparr>"

definition quietMixer :: AudioMixer where
  "quietMixer =
     \<lparr>decodeAndStoreAudioBuffer = (\<lambda>sample. True), startSource = (\<lambda>sample config. None)\<rparr>"

definition throwingMixer :: AudioMixer where
  "throwingMixer =
     \<lparr>decodeAndStoreAudioBuffer = (\<lambda>sample. True),
      startSource = (\<lambda>sample config.
                       if sid sample = ''kick'' then Some (Error ''InvalidStateError'')
                       else None)\<rparr>"

definition tickingClock :: "nat \<Rightarrow> int" where
  "tickingClock k = 10000 + int k"

definition catalogState :: "UserSample list \<Rightarrow> TriggerState" where
  "catalogState catalog =
     \<lparr>samples = catalog, lastTriggerTimes = Map.empty, nowCalls = 0,
      playCalls = [], notified = []\<rparr>"


definition defaultIntervalOneShot :: "string \<Rightarrow> UserSample" where
  "defaultIntervalOneShot i =
     (scenarioOneShot i)\<lparr>metadata := (metadata (scenarioOneShot i))\<lparr>minimumIntervalMs := None\<rparr>\<rparr>"

definition firedState :: "UserSample list \<Rightarrow> string \<Rightarrow> int \<Rightarrow> TriggerState" where
  "firedState catalog i T = (catalogState catalog)\<lparr>lastTriggerTimes := [i \<mapsto> T]\<rparr>"

definition frozenClock :: "int \<Rightarrow> nat \<Rightarrow> int" where
  "frozenClock t k = t"


text \<open>A stereo buffer of \<open>n\<close> sample frames at 48 kHz.\<close>

definition chunk :: "nat \<Rightarrow> AudioBuffer" where
  "chunk n = \<lparr>frames = n, numberOfChannels = 2, bufferSampleRate = 48000\<rparr>"


text \<open>
  Analyser readings: silence (no energy in any bin), a full-scale reading of 0 dB in
  every bin, and a reading with a finite 800 dB in the first bin, whose linear magnitude
  does not fit a 32-bit float; a routing that throws.
\<close>

definition silentReading :: AnalyserReading where
  "silentReading = \<lparr>byteFrequencyData = (\<lambda>i. 0), floatFrequencyData = (\<lambda>i. NegInfinity)\<rparr>"

definition loudReading :: AnalyserReading where
  "loudReading = \<lparr>byteFrequencyData = (\<lambda>i. 255), floatFrequencyData = (\<lambda>i. Finite 0)\<rparr>"

definition overflowReading :: AnalyserReading where
  "overflowReading =
     \<lparr>byteFrequencyData = (\<lambda>i. 0),
      floatFrequencyData = (\<lambda>i. if i = 0 then Finite 800 else NegInfinity)\<rparr>"

definition failingRoute :: "AudioBuffer \<Rightarrow> error + AnalyserReading" where
  "failingRoute buf = Inl (Error ''NotSupportedError'')"


section \<open>Properties of the scorer\<close>

lemma indexOf_range:
  "indexOf xs x \<noteq> -1 \<Longrightarrow> 0 \<le> indexOf xs x \<and> indexOf xs x < int (length xs)"
  by (induction xs) (auto simp: Let_def split: if_splits)

lemma jsRem_nonneg: "0 \<le> a \<Longrightarrow> 0 < b \<Longrightarrow> jsRem a b = a mod b"
  by (cases "a = 0") (simp_all add: jsRem_def)

lemma getPitchClass_range:
  assumes "getPitchClass k = Some p"
  shows "0 \<le> p \<and> p < 12"
proof -
  have len: "int (length PITCH_CLASS_NAMES) = 12"
    by (simp add: PITCH_CLASS_NAMES_def)
  have idx: "\<And>x. indexOf PITCH_CLASS_NAMES x \<noteq> -1 \<Longrightarrow>
      0 \<le> indexOf PITCH_CLASS_NAMES x \<and> indexOf PITCH_CLASS_NAMES x < 12"
    using indexOf_range [of PITCH_CLASS_NAMES] len by simp
  have fallback: "\<And>i. 0 \<le> i \<Longrightarrow> i < 12 \<Longrightarrow>
      0 \<le> jsRem (i - 1 + NUM_CHROMA_BINS) NUM_CHROMA_BINS
      \<and> jsRem (i - 1 + NUM_CHROMA_BINS) NUM_CHROMA_BINS < 12"
    by (simp add: NUM_CHROMA_BINS_def jsRem_nonneg)
  from assms show ?thesis
    unfolding getPitchClass_def Let_def
    by (auto split: option.splits if_splits dest: idx fallback)
qed

lemma getPitchClass_truthy: "getPitchClass k = Some p \<Longrightarrow> truthy k"
  by (auto simp: getPitchClass_def truthy_def split: option.splits if_splits)

lemma getSemitoneDifference_wraps:
  assumes "0 \<le> s" "s < 12" "0 \<le> c" "c < 12"
  shows "- 6 \<le> getSemitoneDifference s c" "getSemitoneDifference s c \<le> 6"
    "jsRem (s + getSemitoneDifference s c + 12) 12 = c"
  using assms by (auto simp: getSemitoneDifference_def Let_def jsRem_nonneg)

lemma keyCompat_resolved:
  assumes c: "getPitchClass contextKey = Some c" and s: "getPitchClass sampleKey = Some s"
    and "cs \<noteq> []" "ss \<noteq> []"
  shows "calculateKeyCompatibility contextKey (Some cs) sampleKey (Some ss) =
           \<lparr>score = (if toLowerCase cs = toLowerCase ss then 1.0 else 0.8),
            pitchShiftSemitones = getSemitoneDifference s c\<rparr>"
proof -
  have rc: "0 \<le> c \<and> c < 12" and rs: "0 \<le> s \<and> s < 12"
    using getPitchClass_range c s by blast+
  have eq: "jsRem (s + getSemitoneDifference s c + 12) 12 = c"
    using getSemitoneDifference_wraps(3) rc rs by blast
  show ?thesis
    using assms getPitchClass_truthy [OF c] getPitchClass_truthy [OF s] eq
    by (simp add: calculateKeyCompatibility_def Let_def)
qed



text \<open>
  C10. Whenever both keys resolve to pitch classes and both scales are present, the key
  score is exactly 1.0 (scales equal ignoring case) or exactly 0.8 (scales differ); the
  pitch shift lies in \<open>[-6, 6]\<close> and maps the sample pitch class onto the context pitch
  class, so the 0.5 outcome (both resolvable, mismatched after the shift) cannot occur.
\<close>

theorem key_score_one_or_point_eight:
  assumes "getPitchClass contextKey = Some c" and "getPitchClass sampleKey = Some s"
    and "contextScale = Some cs" and "sampleScale = Some ss" and "cs \<noteq> []" and "ss \<noteq> []"
  shows "score (calculateKeyCompatibility contextKey contextScale sampleKey sampleScale) =
           (if toLowerCase cs = toLowerCase ss then 1.0 else 0.8)
         \<and> - 6 \<le> pitchShiftSemitones
                    (calculateKeyCompatibility contextKey contextScale sampleKey sampleScale)
         \<and> pitchShiftSemitones
             (calculateKeyCompatibility contextKey contextScale sampleKey sampleScale) \<le> 6
         \<and> jsRem (s + pitchShiftSemitones
                        (calculateKeyCompatibility contextKey contextScale sampleKey sampleScale)
                     + 12) 12 = c"
proof -
  have rc: "0 \<le> c \<and> c < 12" and rs: "0 \<le> s \<and> s < 12"
    using getPitchClass_range assms(1,2) by blast+
  show ?thesis
    using keyCompat_resolved [OF assms(1,2,5,6)] assms(3,4)
      getSemitoneDifference_wraps [of s c] rc rs
    by simp
qed

theorem key_score_one_or_point_eight_witness:
  "getPitchClass (Some ''C'') = Some 0 \<and> getPitchClass (Some ''F#'') = Some 6
   \<and> score (calculateKeyCompatibility (Some ''C'') (Some ''Major'') (Some ''F#'') (Some ''Minor''))
       = 0.8
   \<and> - 6 \<le> pitchShiftSemitones
       (calculateKeyCompatibility (Some ''C'') (Some ''Major'') (Some ''F#'') (Some ''Minor''))
   \<and> pitchShiftSemitones
       (calculateKeyCompatibility (Some ''C'') (Some ''Major'') (Some ''F#'') (Some ''Minor''))
       \<le> 6
   \<and> jsRem (6 + pitchShiftSemitones
       (calculateKeyCompatibility (Some ''C'') (Some ''Major'') (Some ''F#'') (Some ''Minor''))
       + 12) 12 = 0"
proof -
  have c: "getPitchClass (Some ''C'') = Some 0" by code_simp
  have s: "getPitchClass (Some ''F#'') = Some 6" by code_simp
  have ne: "toLowerCase ''Major'' \<noteq> toLowerCase ''Minor''" by code_simp
  show ?thesis
    using key_score_one_or_point_eight [OF c s refl refl, of "''Major''" "''Minor''"] ne c s
    by simp
qed


lemma letterSemitone_dom:
  "letterSemitone l = Some p \<Longrightarrow> l \<in> set ''CDEFGAB''"
  by (auto simp: letterSemitone_def split: if_splits)

lemma noteSemitone_names:
  assumes "noteSemitone k \<noteq> None"
  shows "k \<in> set noteNames"
proof -
  consider (one) l where "k = [l]" | (two) l a where "k = [l, a]"
    | (other) "k = [] \<or> (\<exists>l a b r. k = l # a # b # r)"
    by (cases k rule: noteSemitone.cases) auto
  then show ?thesis
  proof cases
    case one
    with assms obtain p where "letterSemitone l = Some p" by auto
    from letterSemitone_dom [OF this] show ?thesis
      by (auto simp: one noteNames_def)
  next
    case two
    with assms obtain p where p: "letterSemitone l = Some p" and a: "a = CHR ''#'' \<or> a = CHR ''b''"
      by (auto split: option.splits if_splits)
    from letterSemitone_dom [OF p] a show ?thesis
      by (auto simp: two noteNames_def)
  next
    case other
    with assms show ?thesis by auto
  qed
qed

lemma noteSemitone_range: "noteSemitone k = Some p \<Longrightarrow> 0 \<le> p \<and> p < 12"
proof -
  assume a: "noteSemitone k = Some p"
  have all: "\<forall>k\<in>set noteNames. \<forall>p. noteSemitone k = Some p \<longrightarrow> 0 \<le> p \<and> p < 12"
    by (simp add: noteNames_def letterSemitone_def)
  from a noteSemitone_names [of k] all show ?thesis by auto
qed








section \<open>Properties of the trigger scheduler\<close>

lemma shouldTriggerSample_snd:
  "snd (shouldTriggerSample clock st s ctx) =
     st\<lparr>nowCalls := nowCalls st
        + (if sampleType (metadata s) = Some ''one-shot'' \<or> sampleType (metadata s) = Some ''fx''
           then 1 else 0)\<rparr>"
  by (simp add: shouldTriggerSample_def dateNow_def Let_def split: prod.splits)

lemma shouldTriggerSample_snd_ex:
  "\<exists>b\<le>1. snd (shouldTriggerSample clock st s ctx) = st\<lparr>nowCalls := nowCalls st + b\<rparr>"
proof (cases "sampleType (metadata s) = Some ''one-shot'' \<or> sampleType (metadata s) = Some ''fx''")
  case True
  then show ?thesis
    by (intro exI [of _ 1]) (simp add: shouldTriggerSample_snd)
next
  case False
  then show ?thesis
    by (intro exI [of _ 0]) (simp add: shouldTriggerSample_snd)
qed

lemma shouldTriggerSample_fst_cong:
  "lastTriggerTimes st' = lastTriggerTimes st \<Longrightarrow> nowCalls st' = nowCalls st \<Longrightarrow>
   fst (shouldTriggerSample clock st' s ctx) = fst (shouldTriggerSample clock st s ctx)"
  by (simp add: shouldTriggerSample_def dateNow_def Let_def split: prod.splits)

lemma shouldTriggerSample_ineligible:
  "sampleType (metadata s) \<noteq> Some ''one-shot'' \<Longrightarrow> sampleType (metadata s) \<noteq> Some ''fx'' \<Longrightarrow>
   fst (shouldTriggerSample clock st s ctx) = \<lparr>trigger = False, shiftBy = 0\<rparr>"
  by (simp add: shouldTriggerSample_def)

lemma shouldTriggerSample_eligible:
  assumes "sampleType (metadata s) = Some ''one-shot'' \<or> sampleType (metadata s) = Some ''fx''"
  shows "fst (shouldTriggerSample clock st s ctx) =
     (if real_of_int (clock (nowCalls st)
                       - (case lastTriggerTimes st (sid s) of Some t \<Rightarrow> t | None \<Rightarrow> 0))
          < (case minimumIntervalMs (metadata s) of Some m \<Rightarrow> m | None \<Rightarrow> 3000)
      then \<lparr>trigger = False, shiftBy = 0\<rparr>
      else \<lparr>trigger = (totalScore s ctx > 0.7),
            shiftBy = pitchShiftSemitones
              (calculateKeyCompatibility (key ctx) (scale ctx) (sKey (metadata s)) (sScale (metadata s)))\<rparr>)"
  using assms by (auto simp: shouldTriggerSample_def dateNow_def Let_def split: prod.splits)

lemma selectEligible_snd:
  "\<exists>k\<le>length ss. snd (selectEligible clock ctx ss st) = st\<lparr>nowCalls := nowCalls st + k\<rparr>"
proof (induction ss arbitrary: st)
  case Nil
  then show ?case by simp
next
  case (Cons a ss)
  let ?st1 = "snd (shouldTriggerSample clock st a ctx)"
  obtain b where b: "?st1 = st\<lparr>nowCalls := nowCalls st + b\<rparr>" "b \<le> 1"
    using shouldTriggerSample_snd_ex by blast
  obtain k where k: "k \<le> length ss" "snd (selectEligible clock ctx ss ?st1) = ?st1\<lparr>nowCalls := nowCalls ?st1 + k\<rparr>"
    using Cons.IH [of ?st1] by blast
  have "snd (selectEligible clock ctx (a # ss) st) = snd (selectEligible clock ctx ss ?st1)"
    by (simp add: Let_def split: prod.splits)
  also have "\<dots> = st\<lparr>nowCalls := nowCalls st + (b + k)\<rparr>"
    using k(2) b(1) by simp
  finally show ?case using k(1) b(2)
    by (intro exI [of _ "b + k"]) simp
qed

lemma selectEligible_mem:
  assumes "(s, sh) \<in> set (fst (selectEligible clock ctx ss st))"
  shows "s \<in> set ss \<and> (\<exists>j. nowCalls st \<le> j \<and> j < nowCalls st + length ss
            \<and> fst (shouldTriggerSample clock (st\<lparr>nowCalls := j\<rparr>) s ctx)
                = \<lparr>trigger = True, shiftBy = sh\<rparr>)"
  using assms
proof (induction ss arbitrary: st)
  case Nil
  then show ?case by simp
next
  case (Cons a ss)
  let ?d = "fst (shouldTriggerSample clock st a ctx)"
  let ?st1 = "snd (shouldTriggerSample clock st a ctx)"
  obtain b where b: "?st1 = st\<lparr>nowCalls := nowCalls st + b\<rparr>" "b \<le> 1"
    using shouldTriggerSample_snd_ex by blast
  have unfold: "fst (selectEligible clock ctx (a # ss) st) =
      (if trigger ?d then (a, shiftBy ?d) # fst (selectEligible clock ctx ss ?st1)
       else fst (selectEligible clock ctx ss ?st1))"
    by (simp add: Let_def split: prod.splits)
  from Cons.prems unfold
  consider (head) "trigger ?d" "s = a" "sh = shiftBy ?d"
    | (tail) "(s, sh) \<in> set (fst (selectEligible clock ctx ss ?st1))"
    by (auto split: if_splits)
  then show ?case
  proof cases
    case head
    have "st\<lparr>nowCalls := nowCalls st\<rparr> = st" by simp
    then have "fst (shouldTriggerSample clock (st\<lparr>nowCalls := nowCalls st\<rparr>) s ctx)
                = \<lparr>trigger = True, shiftBy = sh\<rparr>"
      using head by simp
    then show ?thesis using head(2)
      by (intro conjI exI [of _ "nowCalls st"]) simp_all
  next
    case tail
    from Cons.IH [OF tail] obtain j where
      j: "s \<in> set ss" "nowCalls ?st1 \<le> j" "j < nowCalls ?st1 + length ss"
         "fst (shouldTriggerSample clock (?st1\<lparr>nowCalls := j\<rparr>) s ctx) = \<lparr>trigger = True, shiftBy = sh\<rparr>"
      by blast
    have "?st1\<lparr>nowCalls := j\<rparr> = st\<lparr>nowCalls := j\<rparr>" using b(1) by simp
    then show ?thesis using j b
      by (intro conjI exI [of _ j]) simp_all
  qed
qed

lemma selectEligible_complete:
  assumes "s \<in> set ss"
    and "\<And>j. nowCalls st \<le> j \<Longrightarrow> j < nowCalls st + length ss \<Longrightarrow>
           trigger (fst (shouldTriggerSample clock (st\<lparr>nowCalls := j\<rparr>) s ctx))"
  shows "\<exists>sh. (s, sh) \<in> set (fst (selectEligible clock ctx ss st))"
  using assms
proof (induction ss arbitrary: st)
  case Nil
  then show ?case by simp
next
  case (Cons a ss)
  let ?d = "fst (shouldTriggerSample clock st a ctx)"
  let ?st1 = "snd (shouldTriggerSample clock st a ctx)"
  obtain b where b: "?st1 = st\<lparr>nowCalls := nowCalls st + b\<rparr>" "b \<le> 1"
    using shouldTriggerSample_snd_ex by blast
  have unfold: "fst (selectEligible clock ctx (a # ss) st) =
      (if trigger ?d then (a, shiftBy ?d) # fst (selectEligible clock ctx ss ?st1)
       else fst (selectEligible clock ctx ss ?st1))"
    by (simp add: Let_def split: prod.splits)
  show ?case
  proof (cases "s = a")
    case True
    have "st\<lparr>nowCalls := nowCalls st\<rparr> = st" by simp
    with Cons.prems(2) [of "nowCalls st"] have "trigger ?d" using True by simp
    then show ?thesis using unfold True by auto
  next
    case False
    then have mem: "s \<in> set ss" using Cons.prems(1) by simp
    have "\<And>j. nowCalls ?st1 \<le> j \<Longrightarrow> j < nowCalls ?st1 + length ss \<Longrightarrow>
           trigger (fst (shouldTriggerSample clock (?st1\<lparr>nowCalls := j\<rparr>) s ctx))"
    proof -
      fix j assume "nowCalls ?st1 \<le> j" "j < nowCalls ?st1 + length ss"
      then have "nowCalls st \<le> j" "j < nowCalls st + length (a # ss)" using b by simp_all
      from Cons.prems(2) [OF this]
      show "trigger (fst (shouldTriggerSample clock (?st1\<lparr>nowCalls := j\<rparr>) s ctx))"
        using b(1) by simp
    qed
    from Cons.IH [OF mem this] obtain sh where "(s, sh) \<in> set (fst (selectEligible clock ctx ss ?st1))"
      by blast
    then show ?thesis using unfold by auto
  qed
qed

lemma selectEligible_fields:
  "playCalls (snd (selectEligible clock ctx ss st)) = playCalls st"
  "lastTriggerTimes (snd (selectEligible clock ctx ss st)) = lastTriggerTimes st"
  "notified (snd (selectEligible clock ctx ss st)) = notified st"
  "nowCalls st \<le> nowCalls (snd (selectEligible clock ctx ss st))"
  using selectEligible_snd [of ss clock ctx st] by auto

lemma fireAll_playCalls:
  "\<exists>k\<le>length el. playCalls (snd (fireAll mixer clock ctx el st)) =
      playCalls st @ map (\<lambda>(s, sh). (s, calculatePlaybackConfig s ctx sh)) (take k el)"
proof (induction el arbitrary: st)
  case Nil
  then show ?case by simp
next
  case (Cons a el)
  obtain s sh where a: "a = (s, sh)" by (cases a)
  let ?cfg = "calculatePlaybackConfig s ctx sh"
  let ?st1 = "st\<lparr>playCalls := playCalls st @ [(s, ?cfg)]\<rparr>"
  show ?case
  proof (cases "playSample mixer s ?cfg")
    case (Inl e)
    then have "playCalls (snd (fireAll mixer clock ctx (a # el) st)) = playCalls st @ [(s, ?cfg)]"
      by (simp add: a Let_def)
    then show ?thesis
      by (intro exI [of _ 1]) (simp add: a)
  next
    case (Inr r)
    let ?st3 = "(snd (dateNow clock ?st1))\<lparr>lastTriggerTimes := (lastTriggerTimes (snd (dateNow clock ?st1)))(sid s \<mapsto> fst (dateNow clock ?st1)),
                 notified := notified (snd (dateNow clock ?st1)) @ [(s, ctx, ?cfg)]\<rparr>"
    have step: "fireAll mixer clock ctx (a # el) st = fireAll mixer clock ctx el ?st3"
      using Inr by (simp add: a Let_def split: prod.splits)
    obtain k where k: "k \<le> length el"
      "playCalls (snd (fireAll mixer clock ctx el ?st3)) =
         playCalls ?st3 @ map (\<lambda>(s, sh). (s, calculatePlaybackConfig s ctx sh)) (take k el)"
      using Cons.IH [of ?st3] by blast
    have "playCalls ?st3 = playCalls st @ [(s, ?cfg)]"
      by (simp add: dateNow_def)
    then show ?thesis using k step
      by (intro exI [of _ "Suc k"]) (simp add: a)
  qed
qed

lemma fireAll_resolving:
  assumes "\<And>s sh e. (s, sh) \<in> set el \<Longrightarrow> playSample mixer s (calculatePlaybackConfig s ctx sh) \<noteq> Inl e"
  shows "fst (fireAll mixer clock ctx el st) = Inr ()
     \<and> playCalls (snd (fireAll mixer clock ctx el st)) =
         playCalls st @ map (\<lambda>(s, sh). (s, calculatePlaybackConfig s ctx sh)) el
     \<and> notified (snd (fireAll mixer clock ctx el st)) =
         notified st @ map (\<lambda>(s, sh). (s, ctx, calculatePlaybackConfig s ctx sh)) el
     \<and> nowCalls (snd (fireAll mixer clock ctx el st)) = nowCalls st + length el
     \<and> (\<forall>i. i \<notin> sid ` fst ` set el \<longrightarrow>
           lastTriggerTimes (snd (fireAll mixer clock ctx el st)) i = lastTriggerTimes st i)
     \<and> (\<forall>i. i \<in> sid ` fst ` set el \<longrightarrow>
           (\<exists>j. nowCalls st \<le> j \<and> j < nowCalls st + length el
              \<and> lastTriggerTimes (snd (fireAll mixer clock ctx el st)) i = Some (clock j)))"
  using assms
proof (induction el arbitrary: st)
  case Nil
  then show ?case by simp
next
  case (Cons a el)
  obtain s sh where a: "a = (s, sh)" by (cases a)
  let ?cfg = "calculatePlaybackConfig s ctx sh"
  let ?st3 = "st\<lparr>playCalls := playCalls st @ [(s, ?cfg)], nowCalls := Suc (nowCalls st),
                 lastTriggerTimes := (lastTriggerTimes st)(sid s \<mapsto> clock (nowCalls st)),
                 notified := notified st @ [(s, ctx, ?cfg)]\<rparr>"
  from Cons.prems [of s sh] obtain r where r: "playSample mixer s ?cfg = Inr r"
    by (cases "playSample mixer s ?cfg") (auto simp: a)
  have step: "fireAll mixer clock ctx (a # el) st = fireAll mixer clock ctx el ?st3"
    using r by (simp add: a Let_def dateNow_def)
  have prems': "\<And>s sh e. (s, sh) \<in> set el \<Longrightarrow> playSample mixer s (calculatePlaybackConfig s ctx sh) \<noteq> Inl e"
    using Cons.prems by simp
  note IH = Cons.IH [of ?st3, OF prems']
  let ?st' = "snd (fireAll mixer clock ctx el ?st3)"
  have c1: "fst (fireAll mixer clock ctx (a # el) st) = Inr ()"
    using IH step by simp
  have c2: "playCalls (snd (fireAll mixer clock ctx (a # el) st)) =
         playCalls st @ map (\<lambda>(s, sh). (s, calculatePlaybackConfig s ctx sh)) (a # el)"
    using IH step by (simp add: a)
  have c3: "notified (snd (fireAll mixer clock ctx (a # el) st)) =
         notified st @ map (\<lambda>(s, sh). (s, ctx, calculatePlaybackConfig s ctx sh)) (a # el)"
    using IH step by (simp add: a)
  have c4: "nowCalls (snd (fireAll mixer clock ctx (a # el) st)) = nowCalls st + length (a # el)"
    using IH step by simp
  have c5: "\<forall>i. i \<notin> sid ` fst ` set (a # el) \<longrightarrow>
           lastTriggerTimes (snd (fireAll mixer clock ctx (a # el) st)) i = lastTriggerTimes st i"
    using IH step by (simp add: a)
  have c6: "\<forall>i. i \<in> sid ` fst ` set (a # el) \<longrightarrow>
           (\<exists>j. nowCalls st \<le> j \<and> j < nowCalls st + length (a # el)
              \<and> lastTriggerTimes (snd (fireAll mixer clock ctx (a # el) st)) i = Some (clock j))"
  proof (intro allI impI)
    fix i assume i: "i \<in> sid ` fst ` set (a # el)"
    show "\<exists>j. nowCalls st \<le> j \<and> j < nowCalls st + length (a # el)
              \<and> lastTriggerTimes (snd (fireAll mixer clock ctx (a # el) st)) i = Some (clock j)"
    proof (cases "i \<in> sid ` fst ` set el")
      case True
      with IH obtain j where "nowCalls ?st3 \<le> j" "j < nowCalls ?st3 + length el"
        "lastTriggerTimes ?st' i = Some (clock j)" by blast
      then show ?thesis using step
        by (intro exI [of _ j]) simp
    next
      case False
      then have "i = sid s" using i by (simp add: a)
      moreover have "lastTriggerTimes ?st' i = lastTriggerTimes ?st3 i"
        using IH False by blast
      ultimately show ?thesis using step
        by (intro exI [of _ "nowCalls st"]) simp
    qed
  qed
  from c1 c2 c3 c4 c5 c6 show ?case by blast
qed

lemma fireAll_append_resolving:
  assumes "\<And>s sh e. (s, sh) \<in> set pre \<Longrightarrow> playSample mixer s (calculatePlaybackConfig s ctx sh) \<noteq> Inl e"
  shows "fireAll mixer clock ctx (pre @ rest) st =
           fireAll mixer clock ctx rest (snd (fireAll mixer clock ctx pre st))"
  using assms
proof (induction pre arbitrary: st)
  case Nil
  then show ?case by simp
next
  case (Cons a pre)
  obtain s sh where a: "a = (s, sh)" by (cases a)
  let ?cfg = "calculatePlaybackConfig s ctx sh"
  from Cons.prems [of s sh] obtain r where r: "playSample mixer s ?cfg = Inr r"
    by (cases "playSample mixer s ?cfg") (auto simp: a)
  have prems': "\<And>s sh e. (s, sh) \<in> set pre \<Longrightarrow> playSample mixer s (calculatePlaybackConfig s ctx sh) \<noteq> Inl e"
    using Cons.prems by simp
  show ?case
    using r Cons.IH [OF prems'] by (simp add: a Let_def split: prod.splits)
qed

lemma fireAll_throwing_head:
  assumes "playSample mixer x (calculatePlaybackConfig x ctx xsh) = Inl e"
  shows "fireAll mixer clock ctx ((x, xsh) # post) st =
           (Inl e, st\<lparr>playCalls := playCalls st @ [(x, calculatePlaybackConfig x ctx xsh)]\<rparr>)"
  using assms by (simp add: Let_def)

lemma evaluateAndTrigger_unfold:
  "evaluateAndTrigger mixer clock ctx st =
     fireAll mixer clock ctx (fst (selectEligible clock ctx (samples st) st))
       (snd (selectEligible clock ctx (samples st) st))"
  by (simp add: evaluateAndTrigger_def split: prod.splits)

lemma evaluateAndTrigger_new_playCalls:
  "\<exists>k. drop (length (playCalls st)) (playCalls (snd (evaluateAndTrigger mixer clock ctx st))) =
     map (\<lambda>(s, sh). (s, calculatePlaybackConfig s ctx sh))
       (take k (fst (selectEligible clock ctx (samples st) st)))"
proof -
  let ?el = "fst (selectEligible clock ctx (samples st) st)"
  let ?st1 = "snd (selectEligible clock ctx (samples st) st)"
  obtain k where "playCalls (snd (fireAll mixer clock ctx ?el ?st1)) =
      playCalls ?st1 @ map (\<lambda>(s, sh). (s, calculatePlaybackConfig s ctx sh)) (take k ?el)"
    using fireAll_playCalls by blast
  then show ?thesis
    by (intro exI [of _ k]) (simp add: evaluateAndTrigger_unfold selectEligible_fields)
qed

lemma played_was_selected:
  assumes "(s, cfg) \<in> set (drop (length (playCalls st))
              (playCalls (snd (evaluateAndTrigger mixer clock ctx st))))"
  shows "\<exists>sh. (s, sh) \<in> set (fst (selectEligible clock ctx (samples st) st))"
proof -
  obtain k where "drop (length (playCalls st)) (playCalls (snd (evaluateAndTrigger mixer clock ctx st))) =
     map (\<lambda>(s, sh). (s, calculatePlaybackConfig s ctx sh))
       (take k (fst (selectEligible clock ctx (samples st) st)))"
    using evaluateAndTrigger_new_playCalls by blast
  with assms obtain sh where "(s, sh) \<in> set (take k (fst (selectEligible clock ctx (samples st) st)))"
    by auto
  then show ?thesis by (blast dest: in_set_takeD)
qed

lemma selected_is_played_when_resolving:
  assumes "\<And>s' cfg. startSource mixer s' cfg = None"
  shows "drop (length (playCalls st)) (playCalls (snd (evaluateAndTrigger mixer clock ctx st))) =
     map (\<lambda>(s, sh). (s, calculatePlaybackConfig s ctx sh))
       (fst (selectEligible clock ctx (samples st) st))"
proof -
  have "\<And>s sh e. playSample mixer s (calculatePlaybackConfig s ctx sh) \<noteq> Inl e"
    using assms by (simp add: playSample_def)
  then show ?thesis
    using fireAll_resolving [of "fst (selectEligible clock ctx (samples st) st)" mixer ctx clock
        "snd (selectEligible clock ctx (samples st) st)"]
    by (simp add: evaluateAndTrigger_unfold selectEligible_fields)
qed

text \<open>
  C5. A catalog sample whose \<open>sampleType\<close> is not exactly \<open>one-shot\<close> or \<open>fx\<close> is never fired:
  \<open>shouldTriggerSample\<close> answers no, the first loop of \<open>evaluateAndTrigger\<close> does not select
  it and the cycle issues no play call for it, whatever the context, the clock, the
  rate-limit map and the mixer are.
\<close>

theorem ineligible_type_never_fires:
  assumes "sampleType (metadata s) \<noteq> Some ''one-shot''"
    and "sampleType (metadata s) \<noteq> Some ''fx''"
  shows "\<not> trigger (fst (shouldTriggerSample clock st s ctx))
     \<and> (\<forall>sh. (s, sh) \<notin> set (fst (selectEligible clock ctx (samples st) st)))
     \<and> (\<forall>cfg. (s, cfg) \<notin> set (drop (length (playCalls st))
                                (playCalls (snd (evaluateAndTrigger mixer clock ctx st)))))"
proof -
  have never: "\<And>st'. \<not> trigger (fst (shouldTriggerSample clock st' s ctx))"
    using assms by (simp add: shouldTriggerSample_ineligible)
  have sel: "\<forall>sh. (s, sh) \<notin> set (fst (selectEligible clock ctx (samples st) st))"
  proof (intro allI notI)
    fix sh assume "(s, sh) \<in> set (fst (selectEligible clock ctx (samples st) st))"
    from selectEligible_mem [OF this] obtain j where
      "fst (shouldTriggerSample clock (st\<lparr>nowCalls := j\<rparr>) s ctx) = \<lparr>trigger = True, shiftBy = sh\<rparr>"
      by blast
    then show False using never [of "st\<lparr>nowCalls := j\<rparr>"] by simp
  qed
  then have "\<forall>cfg. (s, cfg) \<notin> set (drop (length (playCalls st))
                                (playCalls (snd (evaluateAndTrigger mixer clock ctx st))))"
    using played_was_selected by blast
  with never sel show ?thesis by blast
qed

theorem ineligible_type_never_fires_witness:
  "sampleType (metadata scenarioLoop) \<noteq> Some ''one-shot''
   \<and> sampleType (metadata scenarioLoop) \<noteq> Some ''fx''
   \<and> totalScore scenarioLoop scenarioContext > 0.7
   \<and> \<not> trigger (fst (shouldTriggerSample tickingClock (catalogState [scenarioLoop])
                        scenarioLoop scenarioContext))
   \<and> (\<forall>sh. (scenarioLoop, sh) \<notin> set (fst (selectEligible tickingClock scenarioContext
                 (samples (catalogState [scenarioLoop])) (catalogState [scenarioLoop]))))
   \<and> (\<forall>cfg. (scenarioLoop, cfg) \<notin> set (drop (length (playCalls (catalogState [scenarioLoop])))
         (playCalls (snd (evaluateAndTrigger quietMixer tickingClock scenarioContext
                            (catalogState [scenarioLoop]))))))"
proof -
  have h1: "sampleType (metadata scenarioLoop) \<noteq> Some ''one-shot''"
    by (simp add: scenarioLoop_def)
  have h2: "sampleType (metadata scenarioLoop) \<noteq> Some ''fx''"
    by (simp add: scenarioLoop_def)
  have sc: "totalScore scenarioLoop scenarioContext > 0.7"
    by code_simp
  show ?thesis
    using ineligible_type_never_fires [OF h1 h2, of tickingClock "catalogState [scenarioLoop]"
        scenarioContext quietMixer] h1 h2 sc
    by blast
qed

text \<open>
  C3. Let a sample's last recorded firing be at time \<open>T\<close> and its \<open>minimumIntervalMs\<close> be 3000
  (given, or absent and defaulted). A decision taken before \<open>T + 3000\<close> ms is negative,
  and a cycle all of whose decision times are before \<open>T + 3000\<close> neither selects the sample
  nor issues a play call for it. A decision taken at \<open>T + 3000\<close> or later on a sample of
  eligible type whose combined score exceeds 0.7 is positive, and a cycle whose decision
  times are all at \<open>T + 3000\<close> or later puts such a catalog sample on its firing list (and
  plays it when the mixer does not throw).
\<close>

theorem minimum_interval_3000:
  assumes "minimumIntervalMs (metadata s) = None \<or> minimumIntervalMs (metadata s) = Some 3000"
    and "lastTriggerTimes st (sid s) = Some T"
  shows "(clock (nowCalls st) < T + 3000 \<longrightarrow>
            \<not> trigger (fst (shouldTriggerSample clock st s ctx)))
     \<and> ((\<forall>j. nowCalls st \<le> j \<and> j < nowCalls st + length (samples st) \<longrightarrow> clock j < T + 3000) \<longrightarrow>
            (\<forall>sh. (s, sh) \<notin> set (fst (selectEligible clock ctx (samples st) st)))
          \<and> (\<forall>cfg. (s, cfg) \<notin> set (drop (length (playCalls st))
                  (playCalls (snd (evaluateAndTrigger mixer clock ctx st))))))
     \<and> (T + 3000 \<le> clock (nowCalls st)
          \<and> (sampleType (metadata s) = Some ''one-shot'' \<or> sampleType (metadata s) = Some ''fx'')
          \<and> 0.7 < totalScore s ctx \<longrightarrow>
            trigger (fst (shouldTriggerSample clock st s ctx)))
     \<and> (s \<in> set (samples st)
          \<and> (\<forall>j. nowCalls st \<le> j \<and> j < nowCalls st + length (samples st) \<longrightarrow> T + 3000 \<le> clock j)
          \<and> (sampleType (metadata s) = Some ''one-shot'' \<or> sampleType (metadata s) = Some ''fx'')
          \<and> 0.7 < totalScore s ctx \<longrightarrow>
            (\<exists>sh. (s, sh) \<in> set (fst (selectEligible clock ctx (samples st) st)))
          \<and> ((\<forall>s' cfg. startSource mixer s' cfg = None) \<longrightarrow>
               (\<exists>cfg. (s, cfg) \<in> set (drop (length (playCalls st))
                  (playCalls (snd (evaluateAndTrigger mixer clock ctx st)))))))"
proof -
  have interval: "(case minimumIntervalMs (metadata s) of Some m \<Rightarrow> m | None \<Rightarrow> 3000) = 3000"
    using assms(1) by auto
  have early: "\<not> trigger (fst (shouldTriggerSample clock st' s ctx))"
    if "clock (nowCalls st') < T + 3000" "lastTriggerTimes st' = lastTriggerTimes st" for st'
  proof (cases "sampleType (metadata s) = Some ''one-shot'' \<or> sampleType (metadata s) = Some ''fx''")
    case True
    have "real_of_int (clock (nowCalls st') - T) < 3000" using that(1) by simp
    then show ?thesis
      using shouldTriggerSample_eligible [OF True, of clock st' ctx] interval assms(2) that(2)
      by simp
  next
    case False
    then show ?thesis by (simp add: shouldTriggerSample_ineligible)
  qed
  have late: "trigger (fst (shouldTriggerSample clock st' s ctx))"
    if "T + 3000 \<le> clock (nowCalls st')" "lastTriggerTimes st' = lastTriggerTimes st"
      "sampleType (metadata s) = Some ''one-shot'' \<or> sampleType (metadata s) = Some ''fx''"
      "0.7 < totalScore s ctx" for st'
  proof -
    have "\<not> real_of_int (clock (nowCalls st') - T) < 3000" using that(1) by simp
    then show ?thesis
      using shouldTriggerSample_eligible [OF that(3), of clock st' ctx] interval assms(2) that(2,4)
      by simp
  qed
  have c1: "clock (nowCalls st) < T + 3000 \<longrightarrow>
            \<not> trigger (fst (shouldTriggerSample clock st s ctx))"
    using early [of st] by simp
  have c2: "(\<forall>j. nowCalls st \<le> j \<and> j < nowCalls st + length (samples st) \<longrightarrow> clock j < T + 3000) \<longrightarrow>
            (\<forall>sh. (s, sh) \<notin> set (fst (selectEligible clock ctx (samples st) st)))
          \<and> (\<forall>cfg. (s, cfg) \<notin> set (drop (length (playCalls st))
                  (playCalls (snd (evaluateAndTrigger mixer clock ctx st)))))"
  proof
    assume all: "\<forall>j. nowCalls st \<le> j \<and> j < nowCalls st + length (samples st) \<longrightarrow> clock j < T + 3000"
    have sel: "\<forall>sh. (s, sh) \<notin> set (fst (selectEligible clock ctx (samples st) st))"
    proof (intro allI notI)
      fix sh assume "(s, sh) \<in> set (fst (selectEligible clock ctx (samples st) st))"
      from selectEligible_mem [OF this] obtain j where
        j: "nowCalls st \<le> j" "j < nowCalls st + length (samples st)"
        "fst (shouldTriggerSample clock (st\<lparr>nowCalls := j\<rparr>) s ctx) = \<lparr>trigger = True, shiftBy = sh\<rparr>"
        by blast
      have "clock j < T + 3000" using all j(1,2) by blast
      then have "\<not> trigger (fst (shouldTriggerSample clock (st\<lparr>nowCalls := j\<rparr>) s ctx))"
        using early [of "st\<lparr>nowCalls := j\<rparr>"] by simp
      then show False using j(3) by simp
    qed
    then show "(\<forall>sh. (s, sh) \<notin> set (fst (selectEligible clock ctx (samples st) st)))
          \<and> (\<forall>cfg. (s, cfg) \<notin> set (drop (length (playCalls st))
                  (playCalls (snd (evaluateAndTrigger mixer clock ctx st)))))"
      using played_was_selected by blast
  qed
  have c3: "T + 3000 \<le> clock (nowCalls st)
          \<and> (sampleType (metadata s) = Some ''one-shot'' \<or> sampleType (metadata s) = Some ''fx'')
          \<and> 0.7 < totalScore s ctx \<longrightarrow>
            trigger (fst (shouldTriggerSample clock st s ctx))"
    using late [of st] by simp
  have c4: "s \<in> set (samples st)
          \<and> (\<forall>j. nowCalls st \<le> j \<and> j < nowCalls st + length (samples st) \<longrightarrow> T + 3000 \<le> clock j)
          \<and> (sampleType (metadata s) = Some ''one-shot'' \<or> sampleType (metadata s) = Some ''fx'')
          \<and> 0.7 < totalScore s ctx \<longrightarrow>
            (\<exists>sh. (s, sh) \<in> set (fst (selectEligible clock ctx (samples st) st)))
          \<and> ((\<forall>s' cfg. startSource mixer s' cfg = None) \<longrightarrow>
               (\<exists>cfg. (s, cfg) \<in> set (drop (length (playCalls st))
                  (playCalls (snd (evaluateAndTrigger mixer clock ctx st))))))"
  proof
    assume a: "s \<in> set (samples st)
          \<and> (\<forall>j. nowCalls st \<le> j \<and> j < nowCalls st + length (samples st) \<longrightarrow> T + 3000 \<le> clock j)
          \<and> (sampleType (metadata s) = Some ''one-shot'' \<or> sampleType (metadata s) = Some ''fx'')
          \<and> 0.7 < totalScore s ctx"
    have "\<And>j. nowCalls st \<le> j \<Longrightarrow> j < nowCalls st + length (samples st) \<Longrightarrow>
           trigger (fst (shouldTriggerSample clock (st\<lparr>nowCalls := j\<rparr>) s ctx))"
      using a late by simp
    with a selectEligible_complete [of s "samples st" st clock ctx]
    obtain sh where sh: "(s, sh) \<in> set (fst (selectEligible clock ctx (samples st) st))"
      by blast
    have "\<exists>cfg. (s, cfg) \<in> set (drop (length (playCalls st))
                  (playCalls (snd (evaluateAndTrigger mixer clock ctx st))))"
      if "\<forall>s' cfg. startSource mixer s' cfg = None"
    proof -
      have "(s, calculatePlaybackConfig s ctx sh)
              \<in> set (map (\<lambda>(s, sh). (s, calculatePlaybackConfig s ctx sh))
                       (fst (selectEligible clock ctx (samples st) st)))"
        using sh by force
      then show ?thesis
        using selected_is_played_when_resolving [of mixer st clock ctx] that by auto
    qed
    with sh show "(\<exists>sh. (s, sh) \<in> set (fst (selectEligible clock ctx (samples st) st)))
          \<and> ((\<forall>s' cfg. startSource mixer s' cfg = None) \<longrightarrow>
               (\<exists>cfg. (s, cfg) \<in> set (drop (length (playCalls st))
                  (playCalls (snd (evaluateAndTrigger mixer clock ctx st))))))"
      by blast
  qed
  from c1 c2 c3 c4 show ?thesis by blast
qed

theorem minimum_interval_3000_witness:
  "minimumIntervalMs (metadata (defaultIntervalOneShot ''kick'')) = None
   \<and> lastTriggerTimes (firedState [defaultIntervalOneShot ''kick''] ''kick'' 10000)
         (sid (defaultIntervalOneShot ''kick'')) = Some 10000
   \<and> \<not> trigger (fst (shouldTriggerSample (frozenClock 12999)
                        (firedState [defaultIntervalOneShot ''kick''] ''kick'' 10000)
                        (defaultIntervalOneShot ''kick'') scenarioContext))
   \<and> (\<forall>cfg. (defaultIntervalOneShot ''kick'', cfg) \<notin> set (drop
         (length (playCalls (firedState [defaultIntervalOneShot ''kick''] ''kick'' 10000)))
         (playCalls (snd (evaluateAndTrigger quietMixer (frozenClock 12999) scenarioContext
                            (firedState [defaultIntervalOneShot ''kick''] ''kick'' 10000))))))
   \<and> trigger (fst (shouldTriggerSample (frozenClock 13000)
                      (firedState [defaultIntervalOneShot ''kick''] ''kick'' 10000)
                      (defaultIntervalOneShot ''kick'') scenarioContext))
   \<and> (\<exists>cfg. (defaultIntervalOneShot ''kick'', cfg) \<in> set (drop
         (length (playCalls (firedState [defaultIntervalOneShot ''kick''] ''kick'' 10000)))
         (playCalls (snd (evaluateAndTrigger quietMixer (frozenClock 13000) scenarioContext
                            (firedState [defaultIntervalOneShot ''kick''] ''kick'' 10000))))))"
proof -
  let ?s = "defaultIntervalOneShot ''kick''"
  let ?st = "firedState [?s] ''kick'' 10000"
  have h1: "minimumIntervalMs (metadata ?s) = None \<or> minimumIntervalMs (metadata ?s) = Some 3000"
    by (simp add: defaultIntervalOneShot_def)
  have h1': "minimumIntervalMs (metadata ?s) = None"
    by (simp add: defaultIntervalOneShot_def)
  have h2: "lastTriggerTimes ?st (sid ?s) = Some 10000"
    by (simp add: firedState_def defaultIntervalOneShot_def scenarioOneShot_def)
  have cat: "samples ?st = [?s]" "nowCalls ?st = 0"
    by (simp_all add: firedState_def catalogState_def)
  have ty: "sampleType (metadata ?s) = Some ''one-shot''"
    by (simp add: defaultIntervalOneShot_def scenarioOneShot_def)
  have sc: "0.7 < totalScore ?s scenarioContext"
    by code_simp
  have quiet: "\<forall>s' cfg. startSource quietMixer s' cfg = None"
    by (simp add: quietMixer_def)
  have early: "\<not> trigger (fst (shouldTriggerSample (frozenClock 12999) ?st ?s scenarioContext))
      \<and> (\<forall>cfg. (?s, cfg) \<notin> set (drop (length (playCalls ?st))
            (playCalls (snd (evaluateAndTrigger quietMixer (frozenClock 12999) scenarioContext ?st)))))"
    using minimum_interval_3000 [OF h1 h2, of "frozenClock 12999" scenarioContext quietMixer]
    by (simp add: frozenClock_def)
  have late: "trigger (fst (shouldTriggerSample (frozenClock 13000) ?st ?s scenarioContext))
      \<and> (\<exists>cfg. (?s, cfg) \<in> set (drop (length (playCalls ?st))
            (playCalls (snd (evaluateAndTrigger quietMixer (frozenClock 13000) scenarioContext ?st)))))"
    using minimum_interval_3000 [OF h1 h2, of "frozenClock 13000" scenarioContext quietMixer]
      cat ty sc quiet
    by (simp add: frozenClock_def)
  from h1' h2 early late show ?thesis by blast
qed

lemma selectEligible_Cons_fst:
  "fst (selectEligible clock ctx (a # ss) st) =
     (if trigger (fst (shouldTriggerSample clock st a ctx))
      then (a, shiftBy (fst (shouldTriggerSample clock st a ctx)))
             # fst (selectEligible clock ctx ss (snd (shouldTriggerSample clock st a ctx)))
      else fst (selectEligible clock ctx ss (snd (shouldTriggerSample clock st a ctx))))"
  by (simp add: Let_def split: prod.splits)

lemma includes_dense: "includesStr ''dense driving percussion'' ''dense''" by simp
lemma not_sparse: "\<not> includesStr ''dense driving percussion'' ''sparse''" by simp
lemma not_minimal: "\<not> includesStr ''dense driving percussion'' ''minimal''" by simp
lemma not_ambient: "\<not> includesStr ''dense driving percussion'' ''ambient''" by simp
lemma lower_dense: "toLowerCase ''dense driving percussion'' = ''dense driving percussion''"
  by code_simp
lemma lower_sparse: "toLowerCase ''sparse ambient'' = ''sparse ambient''"
  by code_simp
lemma includes_sparse: "includesStr ''sparse ambient'' ''sparse''" by simp

lemma rhythm_dense: "calculateRhythmicFit (Some d) (Some ''dense driving percussion'') = max 0 (min 1 (d * 0.8 + 0.1))"
  by (simp add: calculateRhythmicFit_def truthy_def lower_dense Let_def del: includesStr.simps
      add: includes_dense not_sparse not_minimal not_ambient)

lemma rhythm_sparse: "calculateRhythmicFit (Some d) (Some ''sparse ambient'') = max 0 (min 1 ((1 - d) * 0.8 + 0.1))"
  by (simp add: calculateRhythmicFit_def truthy_def lower_sparse Let_def del: includesStr.simps
      add: includes_sparse)

lemma key_C_C: "calculateKeyCompatibility (Some ''C'') (Some ''Major'') (Some ''C'') (Some ''Major'')
   = \<lparr>score = 1, pitchShiftSemitones = 0\<rparr>"
proof -
  have c: "getPitchClass (Some ''C'') = Some 0" by code_simp
  show ?thesis
    using keyCompat_resolved [OF c c, of "''Major''" "''Major''"]
    by (simp add: getSemitoneDifference_def)
qed

lemma key_C_Fsharp: "calculateKeyCompatibility (Some ''C'') (Some ''Major'') (Some ''F#'') (Some ''Minor'')
   = \<lparr>score = 0.8, pitchShiftSemitones = - 6\<rparr>"
proof -
  have c: "getPitchClass (Some ''C'') = Some 0" by code_simp
  have s: "getPitchClass (Some ''F#'') = Some 6" by code_simp
  have ne: "toLowerCase ''Major'' \<noteq> toLowerCase ''Minor''" by code_simp
  show ?thesis
    using keyCompat_resolved [OF c s, of "''Major''" "''Minor''"] ne
    by (simp add: getSemitoneDifference_def)
qed

text \<open>
  C9. For a context with energy 0.8, key C, scale Major and beat density 0.9 and a
  never-fired one-shot in C Major with energy level 9, groove description
  \<open>dense driving percussion\<close> and minimum interval 0: the key score is 1, the energy score
  is 13/15 (within 0.001 of 0.866), the rhythm score is 0.82, the combined score is 0.906,
  above the threshold, so the decision (at any non-negative clock reading) is to fire with
  pitch shift 0; with that sample as the catalog, the cycle issues exactly one play call,
  with pitch shift 0.
\<close>

theorem one_shot_scenario_fires:
  fixes ctx :: MusicalContext
  assumes ctx: "energy ctx = Some 0.8" "key ctx = Some ''C''" "scale ctx = Some ''Major''"
      "beatDensity ctx = Some 0.9"
    and smp: "sampleType (metadata s) = Some ''one-shot''" "sKey (metadata s) = Some ''C''"
      "sScale (metadata s) = Some ''Major''" "energyLevel (metadata s) = Some 9"
      "grooveDescription (metadata s) = Some ''dense driving percussion''"
      "minimumIntervalMs (metadata s) = Some 0"
    and never: "lastTriggerTimes st (sid s) = None"
    and now: "0 \<le> clock (nowCalls st)"
  shows "score (calculateKeyCompatibility (key ctx) (scale ctx) (sKey (metadata s))
                  (sScale (metadata s))) = 1
     \<and> calculateEnergyMatch (energy ctx) (energyLevel (metadata s)) = 13 / 15
     \<and> \<bar>calculateEnergyMatch (energy ctx) (energyLevel (metadata s)) - 0.866\<bar> < 0.001
     \<and> calculateRhythmicFit (beatDensity ctx) (grooveDescription (metadata s)) = 0.82
     \<and> totalScore s ctx = 0.906
     \<and> fst (shouldTriggerSample clock st s ctx) = \<lparr>trigger = True, shiftBy = 0\<rparr>
     \<and> (samples st = [s] \<longrightarrow>
          drop (length (playCalls st)) (playCalls (snd (evaluateAndTrigger mixer clock ctx st)))
            = [(s, calculatePlaybackConfig s ctx 0)]
          \<and> pitchShift (calculatePlaybackConfig s ctx 0) = Some 0)"
proof -
  have k: "calculateKeyCompatibility (key ctx) (scale ctx) (sKey (metadata s)) (sScale (metadata s))
      = \<lparr>score = 1, pitchShiftSemitones = 0\<rparr>"
    using ctx smp key_C_C by simp
  have e: "calculateEnergyMatch (energy ctx) (energyLevel (metadata s)) = 13 / 15"
    using ctx smp by (simp add: calculateEnergyMatch_def Let_def)
  have r: "calculateRhythmicFit (beatDensity ctx) (grooveDescription (metadata s)) = 0.82"
    using ctx smp by (simp add: rhythm_dense)
  have t: "totalScore s ctx = 0.906"
    unfolding totalScore_def k e r by simp
  have d: "fst (shouldTriggerSample clock st s ctx) = \<lparr>trigger = True, shiftBy = 0\<rparr>"
    using shouldTriggerSample_eligible [of s clock st ctx] smp never now t k by simp
  have cyc: "drop (length (playCalls st)) (playCalls (snd (evaluateAndTrigger mixer clock ctx st)))
            = [(s, calculatePlaybackConfig s ctx 0)]" if "samples st = [s]"
  proof -
    have "fst (selectEligible clock ctx [s] st) = [(s, 0)]"
      using d by (simp add: selectEligible_Cons_fst del: selectEligible.simps(2))
    moreover have "playCalls (snd (selectEligible clock ctx [s] st)) = playCalls st"
      by (rule selectEligible_fields)
    ultimately show ?thesis
      using that
      by (cases "playSample mixer s (calculatePlaybackConfig s ctx 0)")
         (simp_all add: evaluateAndTrigger_unfold Let_def dateNow_def split: prod.splits)
  qed
  have p: "pitchShift (calculatePlaybackConfig s ctx 0) = Some 0"
    by (simp add: calculatePlaybackConfig_def Let_def)
  from k e r t d cyc p show ?thesis by simp
qed

theorem one_shot_scenario_fires_witness:
  "energy scenarioContext = Some 0.8 \<and> key scenarioContext = Some ''C''
   \<and> scale scenarioContext = Some ''Major'' \<and> beatDensity scenarioContext = Some 0.9
   \<and> lastTriggerTimes (catalogState [scenarioOneShot ''kick'']) (sid (scenarioOneShot ''kick''))
        = None
   \<and> 0 \<le> tickingClock (nowCalls (catalogState [scenarioOneShot ''kick'']))
   \<and> totalScore (scenarioOneShot ''kick'') scenarioContext = 0.906
   \<and> fst (shouldTriggerSample tickingClock (catalogState [scenarioOneShot ''kick''])
             (scenarioOneShot ''kick'') scenarioContext) = \<lparr>trigger = True, shiftBy = 0\<rparr>
   \<and> drop (length (playCalls (catalogState [scenarioOneShot ''kick''])))
        (playCalls (snd (evaluateAndTrigger quietMixer tickingClock scenarioContext
                           (catalogState [scenarioOneShot ''kick'']))))
        = [(scenarioOneShot ''kick'',
            calculatePlaybackConfig (scenarioOneShot ''kick'') scenarioContext 0)]
   \<and> pitchShift (calculatePlaybackConfig (scenarioOneShot ''kick'') scenarioContext 0) = Some 0"
proof -
  let ?s = "scenarioOneShot ''kick''"
  let ?st = "catalogState [?s]"
  have ctx: "energy scenarioContext = Some 0.8" "key scenarioContext = Some ''C''"
    "scale scenarioContext = Some ''Major''" "beatDensity scenarioContext = Some 0.9"
    by (simp_all add: scenarioContext_def)
  have smp: "sampleType (metadata ?s) = Some ''one-shot''" "sKey (metadata ?s) = Some ''C''"
    "sScale (metadata ?s) = Some ''Major''" "energyLevel (metadata ?s) = Some 9"
    "grooveDescription (metadata ?s) = Some ''dense driving percussion''"
    "minimumIntervalMs (metadata ?s) = Some 0"
    by (simp_all add: scenarioOneShot_def)
  have never: "lastTriggerTimes ?st (sid ?s) = None"
    by (simp add: catalogState_def)
  have now: "0 \<le> tickingClock (nowCalls ?st)"
    by (simp add: tickingClock_def)
  have cat: "samples ?st = [?s]"
    by (simp add: catalogState_def)
  show ?thesis
    using one_shot_scenario_fires [where ctx = scenarioContext and s = "scenarioOneShot ''kick''"
        and st = "catalogState [scenarioOneShot ''kick'']" and clock = tickingClock
        and mixer = quietMixer, OF ctx smp never now] ctx never now cat
    by simp
qed

lemma low_score_never_selected:
  assumes "totalScore s ctx \<le> 0.7"
  shows "\<not> trigger (fst (shouldTriggerSample clock st s ctx))"
proof (cases "sampleType (metadata s) = Some ''one-shot'' \<or> sampleType (metadata s) = Some ''fx''")
  case True
  then show ?thesis
    using assms by (simp add: shouldTriggerSample_eligible)
next
  case False
  then show ?thesis by (simp add: shouldTriggerSample_ineligible)
qed

text \<open>
  C2 as stated has the key score between 0.3 and 0.5. On the scenario's input it is 0.8.
\<close>

theorem fx_scenario_key_score_counterexample:
  "\<not> (0.3 \<le> score (calculateKeyCompatibility (key scenarioContext) (scale scenarioContext)
                      (sKey (metadata scenarioFx)) (sScale (metadata scenarioFx)))
      \<and> score (calculateKeyCompatibility (key scenarioContext) (scale scenarioContext)
                  (sKey (metadata scenarioFx)) (sScale (metadata scenarioFx))) \<le> 0.5)"
  by (simp add: scenarioContext_def scenarioFx_def key_C_Fsharp)

text \<open>
  C2, as amended. For the same context and the \<open>fx\<close> sample in F# Minor with energy level 2,
  groove description \<open>sparse ambient\<close> and minimum interval 0: the key score is 0.8 (the
  shift of -6 semitones puts F# on C; the scales differ), the energy score is 0, the
  rhythm score is 0.18, the combined score is 0.374, under the threshold, and the sample
  is neither selected nor played.
\<close>

theorem fx_scenario_does_not_fire:
  fixes ctx :: MusicalContext
  assumes ctx: "energy ctx = Some 0.8" "key ctx = Some ''C''" "scale ctx = Some ''Major''"
      "beatDensity ctx = Some 0.9"
    and smp: "sampleType (metadata s) = Some ''fx''" "sKey (metadata s) = Some ''F#''"
      "sScale (metadata s) = Some ''Minor''" "energyLevel (metadata s) = Some 2"
      "grooveDescription (metadata s) = Some ''sparse ambient''"
      "minimumIntervalMs (metadata s) = Some 0"
  shows "calculateKeyCompatibility (key ctx) (scale ctx) (sKey (metadata s)) (sScale (metadata s))
           = \<lparr>score = 0.8, pitchShiftSemitones = - 6\<rparr>
     \<and> calculateEnergyMatch (energy ctx) (energyLevel (metadata s)) = 0
     \<and> calculateRhythmicFit (beatDensity ctx) (grooveDescription (metadata s)) = 0.18
     \<and> totalScore s ctx = 0.374
     \<and> \<not> trigger (fst (shouldTriggerSample clock st s ctx))
     \<and> (\<forall>sh. (s, sh) \<notin> set (fst (selectEligible clock ctx (samples st) st)))
     \<and> (\<forall>cfg. (s, cfg) \<notin> set (drop (length (playCalls st))
                                (playCalls (snd (evaluateAndTrigger mixer clock ctx st)))))"
proof -
  have k: "calculateKeyCompatibility (key ctx) (scale ctx) (sKey (metadata s)) (sScale (metadata s))
      = \<lparr>score = 0.8, pitchShiftSemitones = - 6\<rparr>"
    using ctx smp key_C_Fsharp by simp
  have e: "calculateEnergyMatch (energy ctx) (energyLevel (metadata s)) = 0"
    using ctx smp by (simp add: calculateEnergyMatch_def Let_def)
  have r: "calculateRhythmicFit (beatDensity ctx) (grooveDescription (metadata s)) = 0.18"
    using ctx smp by (simp add: rhythm_sparse)
  have t: "totalScore s ctx = 0.374"
    unfolding totalScore_def k e r by simp
  have never: "\<And>st'. \<not> trigger (fst (shouldTriggerSample clock st' s ctx))"
    using low_score_never_selected [of s ctx] t by simp
  have sel: "\<forall>sh. (s, sh) \<notin> set (fst (selectEligible clock ctx (samples st) st))"
  proof (intro allI notI)
    fix sh assume "(s, sh) \<in> set (fst (selectEligible clock ctx (samples st) st))"
    from selectEligible_mem [OF this] obtain j where
      "fst (shouldTriggerSample clock (st\<lparr>nowCalls := j\<rparr>) s ctx) = \<lparr>trigger = True, shiftBy = sh\<rparr>"
      by blast
    then show False using never [of "st\<lparr>nowCalls := j\<rparr>"] by simp
  qed
  then have "\<forall>cfg. (s, cfg) \<notin> set (drop (length (playCalls st))
                                (playCalls (snd (evaluateAndTrigger mixer clock ctx st))))"
    using played_was_selected by blast
  with k e r t never sel show ?thesis by blast
qed

theorem fx_scenario_does_not_fire_witness:
  "energy scenarioContext = Some 0.8 \<and> key scenarioContext = Some ''C''
   \<and> scale scenarioContext = Some ''Major'' \<and> beatDensity scenarioContext = Some 0.9
   \<and> sampleType (metadata scenarioFx) = Some ''fx''
   \<and> score (calculateKeyCompatibility (key scenarioContext) (scale scenarioContext)
               (sKey (metadata scenarioFx)) (sScale (metadata scenarioFx))) = 0.8
   \<and> totalScore scenarioFx scenarioContext = 0.374
   \<and> \<not> trigger (fst (shouldTriggerSample tickingClock (catalogState [scenarioFx])
                        scenarioFx scenarioContext))
   \<and> (\<forall>cfg. (scenarioFx, cfg) \<notin> set (drop (length (playCalls (catalogState [scenarioFx])))
         (playCalls (snd (evaluateAndTrigger quietMixer tickingClock scenarioContext
                            (catalogState [scenarioFx]))))))"
proof -
  have ctx: "energy scenarioContext = Some 0.8" "key scenarioContext = Some ''C''"
    "scale scenarioContext = Some ''Major''" "beatDensity scenarioContext = Some 0.9"
    by (simp_all add: scenarioContext_def)
  have smp: "sampleType (metadata scenarioFx) = Some ''fx''"
    "sKey (metadata scenarioFx) = Some ''F#''"
    "sScale (metadata scenarioFx) = Some ''Minor''" "energyLevel (metadata scenarioFx) = Some 2"
    "grooveDescription (metadata scenarioFx) = Some ''sparse ambient''"
    "minimumIntervalMs (metadata scenarioFx) = Some 0"
    by (simp_all add: scenarioFx_def)
  show ?thesis
    using fx_scenario_does_not_fire [OF ctx smp, of tickingClock "catalogState [scenarioFx]"
        quietMixer] ctx smp(1)
    by simp
qed

text \<open>A sample that cannot be decoded is skipped with a warning; nothing is thrown.\<close>

lemma undecodable_sample_resolves:
  "\<not> decodeAndStoreAudioBuffer mixer s \<Longrightarrow> playSample mixer s cfg = Inr NotDecoded"
  by (simp add: playSample_def)

text \<open>
  C1 as stated has the failure caught per sample, the remaining samples played and the
  failing sample time-stamped. With the catalog \<open>kick\<close>, \<open>snare\<close>, both above the threshold,
  and a mixer that throws for \<open>kick\<close>, the cycle ends with the error, \<open>snare\<close> is not played
  and \<open>kick\<close> has no last-fired time.
\<close>

theorem play_failure_counterexample:
  "fst (selectEligible tickingClock scenarioContext
          (samples (catalogState [scenarioOneShot ''kick'', scenarioOneShot ''snare'']))
          (catalogState [scenarioOneShot ''kick'', scenarioOneShot ''snare'']))
     = [(scenarioOneShot ''kick'', 0), (scenarioOneShot ''snare'', 0)]
   \<and> playSample throwingMixer (scenarioOneShot ''kick'')
         (calculatePlaybackConfig (scenarioOneShot ''kick'') scenarioContext 0)
       = Inl (Error ''InvalidStateError'')
   \<and> fst (evaluateAndTrigger throwingMixer tickingClock scenarioContext
             (catalogState [scenarioOneShot ''kick'', scenarioOneShot ''snare'']))
       = Inl (Error ''InvalidStateError'')
   \<and> map (sid \<circ> fst)
         (playCalls (snd (evaluateAndTrigger throwingMixer tickingClock scenarioContext
                            (catalogState [scenarioOneShot ''kick'', scenarioOneShot ''snare'']))))
       = [''kick'']
   \<and> lastTriggerTimes
         (snd (evaluateAndTrigger throwingMixer tickingClock scenarioContext
                 (catalogState [scenarioOneShot ''kick'', scenarioOneShot ''snare''])))
         ''kick'' = None"
proof -
  have a: "fst (selectEligible tickingClock scenarioContext
          (samples (catalogState [scenarioOneShot ''kick'', scenarioOneShot ''snare'']))
          (catalogState [scenarioOneShot ''kick'', scenarioOneShot ''snare'']))
     = [(scenarioOneShot ''kick'', 0), (scenarioOneShot ''snare'', 0)]"
    by code_simp
  have b: "playSample throwingMixer (scenarioOneShot ''kick'')
         (calculatePlaybackConfig (scenarioOneShot ''kick'') scenarioContext 0)
       = Inl (Error ''InvalidStateError'')"
    by code_simp
  have c: "fst (evaluateAndTrigger throwingMixer tickingClock scenarioContext
             (catalogState [scenarioOneShot ''kick'', scenarioOneShot ''snare'']))
       = Inl (Error ''InvalidStateError'')"
    by code_simp
  have d: "map (sid \<circ> fst)
         (playCalls (snd (evaluateAndTrigger throwingMixer tickingClock scenarioContext
                            (catalogState [scenarioOneShot ''kick'', scenarioOneShot ''snare'']))))
       = [''kick'']"
    by code_simp
  have e: "lastTriggerTimes
         (snd (evaluateAndTrigger throwingMixer tickingClock scenarioContext
                 (catalogState [scenarioOneShot ''kick'', scenarioOneShot ''snare''])))
         ''kick'' = None"
    by code_simp
  from a b c d e show ?thesis by blast
qed

text \<open>
  C1, as amended. When the play call of a fired sample throws, \<open>evaluateAndTrigger\<close> does
  not catch it: the cycle ends with that error. The samples on the firing list before the
  failing one have been played, notified and time-stamped; the play calls of the cycle
  are exactly those and the failing one, so no sample after it is played; and the
  last-fired time of every id that is not among the earlier samples, the failing one
  included, is what it was before the cycle.
\<close>

theorem play_failure_ends_cycle:
  assumes sel: "fst (selectEligible clock ctx (samples st) st) = pre @ (x, xsh) # post"
    and pre: "\<forall>(s, sh) \<in> set pre. \<forall>e. playSample mixer s (calculatePlaybackConfig s ctx sh) \<noteq> Inl e"
    and thrown: "playSample mixer x (calculatePlaybackConfig x ctx xsh) = Inl e"
  shows "fst (evaluateAndTrigger mixer clock ctx st) = Inl e
     \<and> drop (length (playCalls st)) (playCalls (snd (evaluateAndTrigger mixer clock ctx st)))
         = map (\<lambda>(s, sh). (s, calculatePlaybackConfig s ctx sh)) (pre @ [(x, xsh)])
     \<and> notified (snd (evaluateAndTrigger mixer clock ctx st))
         = notified st @ map (\<lambda>(s, sh). (s, ctx, calculatePlaybackConfig s ctx sh)) pre
     \<and> (\<forall>i. i \<in> sid ` fst ` set pre \<longrightarrow>
           (\<exists>j. lastTriggerTimes (snd (evaluateAndTrigger mixer clock ctx st)) i = Some (clock j)))
     \<and> (\<forall>i. i \<notin> sid ` fst ` set pre \<longrightarrow>
           lastTriggerTimes (snd (evaluateAndTrigger mixer clock ctx st)) i
             = lastTriggerTimes st i)"
proof -
  let ?st1 = "snd (selectEligible clock ctx (samples st) st)"
  let ?st2 = "snd (fireAll mixer clock ctx pre ?st1)"
  have pre': "\<And>s sh e. (s, sh) \<in> set pre \<Longrightarrow>
      playSample mixer s (calculatePlaybackConfig s ctx sh) \<noteq> Inl e"
    using pre by blast
  have run: "evaluateAndTrigger mixer clock ctx st =
      (Inl e, ?st2\<lparr>playCalls := playCalls ?st2 @ [(x, calculatePlaybackConfig x ctx xsh)]\<rparr>)"
    using fireAll_append_resolving [where pre = pre and mixer = mixer and ctx = ctx
        and rest = "(x, xsh) # post" and clock = clock and st = ?st1, OF pre']
      fireAll_throwing_head [OF thrown, where clock = clock and post = post and st = ?st2]
    by (simp add: evaluateAndTrigger_unfold sel)
  note facts = fireAll_resolving [where el = pre and mixer = mixer and ctx = ctx
      and clock = clock and st = ?st1, OF pre']
  have c1: "fst (evaluateAndTrigger mixer clock ctx st) = Inl e"
    using run by simp
  have c2: "drop (length (playCalls st)) (playCalls (snd (evaluateAndTrigger mixer clock ctx st)))
         = map (\<lambda>(s, sh). (s, calculatePlaybackConfig s ctx sh)) (pre @ [(x, xsh)])"
    using run facts by (simp add: selectEligible_fields)
  have c3: "notified (snd (evaluateAndTrigger mixer clock ctx st))
         = notified st @ map (\<lambda>(s, sh). (s, ctx, calculatePlaybackConfig s ctx sh)) pre"
    using run facts by (simp add: selectEligible_fields)
  have c4: "\<forall>i. i \<in> sid ` fst ` set pre \<longrightarrow>
           (\<exists>j. lastTriggerTimes (snd (evaluateAndTrigger mixer clock ctx st)) i = Some (clock j))"
  proof (intro allI impI)
    fix i assume "i \<in> sid ` fst ` set pre"
    with facts obtain j where
      "lastTriggerTimes ?st2 i = Some (clock j)" by blast
    then show "\<exists>j. lastTriggerTimes (snd (evaluateAndTrigger mixer clock ctx st)) i
                 = Some (clock j)"
      using run by (intro exI [of _ j]) simp
  qed
  have c5: "\<forall>i. i \<notin> sid ` fst ` set pre \<longrightarrow>
           lastTriggerTimes (snd (evaluateAndTrigger mixer clock ctx st)) i
             = lastTriggerTimes st i"
    using run facts by (simp add: selectEligible_fields)
  from c1 c2 c3 c4 c5 show ?thesis by blast
qed

theorem play_failure_ends_cycle_witness:
  "fst (selectEligible tickingClock scenarioContext
          (samples (catalogState [scenarioOneShot ''snare'', scenarioOneShot ''kick'',
                                  scenarioOneShot ''hat'']))
          (catalogState [scenarioOneShot ''snare'', scenarioOneShot ''kick'',
                         scenarioOneShot ''hat'']))
     = [(scenarioOneShot ''snare'', 0)] @ (scenarioOneShot ''kick'', 0) # [(scenarioOneShot ''hat'', 0)]
   \<and> playSample throwingMixer (scenarioOneShot ''kick'')
         (calculatePlaybackConfig (scenarioOneShot ''kick'') scenarioContext 0)
       = Inl (Error ''InvalidStateError'')
   \<and> fst (evaluateAndTrigger throwingMixer tickingClock scenarioContext
             (catalogState [scenarioOneShot ''snare'', scenarioOneShot ''kick'',
                            scenarioOneShot ''hat'']))
       = Inl (Error ''InvalidStateError'')
   \<and> map fst (drop (length (playCalls (catalogState [scenarioOneShot ''snare'',
                        scenarioOneShot ''kick'', scenarioOneShot ''hat''])))
         (playCalls (snd (evaluateAndTrigger throwingMixer tickingClock scenarioContext
             (catalogState [scenarioOneShot ''snare'', scenarioOneShot ''kick'',
                            scenarioOneShot ''hat''])))))
       = [scenarioOneShot ''snare'', scenarioOneShot ''kick'']
   \<and> lastTriggerTimes
         (snd (evaluateAndTrigger throwingMixer tickingClock scenarioContext
                 (catalogState [scenarioOneShot ''snare'', scenarioOneShot ''kick'',
                                scenarioOneShot ''hat''])))
         ''kick'' = None"
proof -
  let ?st = "catalogState [scenarioOneShot ''snare'', scenarioOneShot ''kick'',
                           scenarioOneShot ''hat'']"
  have sel: "fst (selectEligible tickingClock scenarioContext (samples ?st) ?st)
     = [(scenarioOneShot ''snare'', 0)] @ (scenarioOneShot ''kick'', 0) # [(scenarioOneShot ''hat'', 0)]"
    by code_simp
  have pre: "\<forall>(s, sh) \<in> set [(scenarioOneShot ''snare'', 0)].
      \<forall>e. playSample throwingMixer s (calculatePlaybackConfig s scenarioContext sh) \<noteq> Inl e"
    by (simp add: playSample_def throwingMixer_def scenarioOneShot_def)
  have thrown: "playSample throwingMixer (scenarioOneShot ''kick'')
         (calculatePlaybackConfig (scenarioOneShot ''kick'') scenarioContext 0)
       = Inl (Error ''InvalidStateError'')"
    by code_simp
  have ids: "''kick'' \<notin> sid ` fst ` set [(scenarioOneShot ''snare'', 0::int)]"
    by (simp add: scenarioOneShot_def)
  have before: "lastTriggerTimes ?st ''kick'' = None"
    by (simp add: catalogState_def)
  show ?thesis
    using play_failure_ends_cycle [OF sel pre thrown] sel thrown ids before
    by simp
qed

section \<open>Properties of the aggregator\<close>

lemma queuedFrames_simps [simp]:
  "queuedFrames [] = 0"
  "queuedFrames (b # q) = int (frames b) + queuedFrames q"
  "queuedFrames (q @ q') = queuedFrames q + queuedFrames q'"
  by (simp_all add: queuedFrames_def)

lemma evict_drop:
  "\<exists>k\<le>length q. evict sr q (queuedFrames q) = (drop k q, queuedFrames (drop k q))
      \<and> (\<forall>j<k. real_of_int (queuedFrames (drop j q)) / sr > maxBufferDurationSecs)
      \<and> real_of_int (queuedFrames (drop k q)) / sr \<le> maxBufferDurationSecs"
proof (induction q)
  case Nil
  then show ?case by (simp add: maxBufferDurationSecs_def)
next
  case (Cons a q)
  show ?case
  proof (cases "real_of_int (queuedFrames (a # q)) / sr > maxBufferDurationSecs")
    case True
    from Cons.IH obtain k where k: "k \<le> length q"
      "evict sr q (queuedFrames q) = (drop k q, queuedFrames (drop k q))"
      "\<forall>j<k. real_of_int (queuedFrames (drop j q)) / sr > maxBufferDurationSecs"
      "real_of_int (queuedFrames (drop k q)) / sr \<le> maxBufferDurationSecs"
      by blast
    have ev: "evict sr (a # q) (queuedFrames (a # q)) = (drop (Suc k) (a # q), queuedFrames (drop (Suc k) (a # q)))"
      using True k(2) by simp
    have all: "\<forall>j<Suc k. real_of_int (queuedFrames (drop j (a # q))) / sr > maxBufferDurationSecs"
    proof (intro allI impI)
      fix j assume "j < Suc k"
      then show "real_of_int (queuedFrames (drop j (a # q))) / sr > maxBufferDurationSecs"
        using True k(3) by (cases j) simp_all
    qed
    show ?thesis
      using ev all k(1,4) by (intro exI [of _ "Suc k"]) simp
  next
    case False
    then show ?thesis
      by (intro exI [of _ 0]) simp
  qed
qed

lemma handle_invalid:
  "b = None \<or> (\<exists>x. b = Some x \<and> frames x = 0) \<Longrightarrow> handleNewLyriaAudioBuffer now b st = st"
  by (auto simp: handleNewLyriaAudioBuffer_def)

lemma handle_valid:
  assumes "frames x \<noteq> 0"
    and "accumulatedBufferLength st = queuedFrames (audioBufferQueue st)"
  shows "sampleRate (handleNewLyriaAudioBuffer now (Some x) st) = sampleRate st
     \<and> accumulatedBufferLength (handleNewLyriaAudioBuffer now (Some x) st)
         = queuedFrames (audioBufferQueue (handleNewLyriaAudioBuffer now (Some x) st))
     \<and> real_of_int (queuedFrames (audioBufferQueue (handleNewLyriaAudioBuffer now (Some x) st)))
           / sampleRate st \<le> maxBufferDurationSecs
     \<and> (\<exists>k\<le>length (audioBufferQueue st @ [x]).
           audioBufferQueue (handleNewLyriaAudioBuffer now (Some x) st)
             = drop k (audioBufferQueue st @ [x])
           \<and> (\<forall>j<k. real_of_int (queuedFrames (drop j (audioBufferQueue st @ [x])))
                        / sampleRate st > maxBufferDurationSecs))"
proof -
  let ?q = "audioBufferQueue st @ [x]"
  have acc: "accumulatedBufferLength st + int (frames x) = queuedFrames ?q"
    using assms(2) by simp
  obtain k where k: "k \<le> length ?q"
    "evict (sampleRate st) ?q (queuedFrames ?q) = (drop k ?q, queuedFrames (drop k ?q))"
    "\<forall>j<k. real_of_int (queuedFrames (drop j ?q)) / sampleRate st > maxBufferDurationSecs"
    "real_of_int (queuedFrames (drop k ?q)) / sampleRate st \<le> maxBufferDurationSecs"
    using evict_drop [of ?q "sampleRate st"] by blast
  have q': "audioBufferQueue (handleNewLyriaAudioBuffer now (Some x) st) = drop k ?q"
    and a': "accumulatedBufferLength (handleNewLyriaAudioBuffer now (Some x) st)
               = queuedFrames (drop k ?q)"
    and s': "sampleRate (handleNewLyriaAudioBuffer now (Some x) st) = sampleRate st"
    using assms(1) k(2) acc
    by (simp_all add: handleNewLyriaAudioBuffer_def Let_def del: queuedFrames_simps)
  show ?thesis
    unfolding q' a' s' using k(1,3,4) by blast
qed

lemma sessionAfter_snoc:
  "sessionAfter sr (calls @ [(now, b)]) = handleNewLyriaAudioBuffer now b (sessionAfter sr calls)"
  by (simp add: sessionAfter_def)

lemma sessionAfter_invariant:
  "sampleRate (sessionAfter sr calls) = sr
   \<and> accumulatedBufferLength (sessionAfter sr calls)
       = queuedFrames (audioBufferQueue (sessionAfter sr calls))
   \<and> real_of_int (queuedFrames (audioBufferQueue (sessionAfter sr calls))) / sr
       \<le> maxBufferDurationSecs"
proof (induction calls rule: rev_induct)
  case Nil
  then show ?case
    by (simp add: sessionAfter_def newSession_def maxBufferDurationSecs_def)
next
  case (snoc c calls)
  obtain now b where c: "c = (now, b)" by (cases c)
  show ?case
  proof (cases "b = None \<or> (\<exists>x. b = Some x \<and> frames x = 0)")
    case True
    then show ?thesis
      using snoc.IH by (simp add: c sessionAfter_snoc handle_invalid)
  next
    case False
    then obtain x where x: "b = Some x" "frames x \<noteq> 0" by auto
    show ?thesis
      using handle_valid [OF x(2), of "sessionAfter sr calls" now] snoc.IH
      by (simp add: c x(1) sessionAfter_snoc)
  qed
qed

text \<open>
  C6. After every call of \<open>handleNewLyriaAudioBuffer\<close> on a session (a new instance fed any
  sequence of earlier calls, with a positive context sample rate) the queued duration is
  at most 2.0 seconds and the running length equals the sum of the lengths of the queued
  buffers; the new queue is the old queue with the accepted buffer appended and some
  number \<open>k\<close> of buffers dropped from the front, and every shorter drop would still
  exceed the cap.
\<close>

theorem sliding_window_cap:
  assumes "0 < sr"
  shows "real_of_int (queuedFrames (audioBufferQueue
            (handleNewLyriaAudioBuffer now b (sessionAfter sr calls)))) / sr
          \<le> maxBufferDurationSecs
     \<and> accumulatedBufferLength (handleNewLyriaAudioBuffer now b (sessionAfter sr calls))
         = queuedFrames (audioBufferQueue
             (handleNewLyriaAudioBuffer now b (sessionAfter sr calls)))
     \<and> (\<exists>k. audioBufferQueue (handleNewLyriaAudioBuffer now b (sessionAfter sr calls))
               = drop k (audioBufferQueue (sessionAfter sr calls)
                          @ (case b of None \<Rightarrow> []
                             | Some x \<Rightarrow> if frames x = 0 then [] else [x]))
            \<and> (\<forall>j<k. real_of_int (queuedFrames
                          (drop j (audioBufferQueue (sessionAfter sr calls)
                             @ (case b of None \<Rightarrow> []
                                | Some x \<Rightarrow> if frames x = 0 then [] else [x])))) / sr
                        > maxBufferDurationSecs))"
proof -
  let ?st = "sessionAfter sr calls"
  note inv = sessionAfter_invariant [of sr calls]
  note inv' = sessionAfter_invariant [of sr "calls @ [(now, b)]", unfolded sessionAfter_snoc]
  show ?thesis
  proof (cases "b = None \<or> (\<exists>x. b = Some x \<and> frames x = 0)")
    case True
    then have same: "handleNewLyriaAudioBuffer now b ?st = ?st"
      by (rule handle_invalid)
    have tail: "(case b of None \<Rightarrow> [] | Some x \<Rightarrow> if frames x = 0 then [] else [x]) = []"
      using True by auto
    show ?thesis
      unfolding same tail using inv by (intro conjI exI [of _ 0]) simp_all
  next
    case False
    then obtain x where x: "b = Some x" "frames x \<noteq> 0" by auto
    have tail: "(case b of None \<Rightarrow> [] | Some x \<Rightarrow> if frames x = 0 then [] else [x]) = [x]"
      using x by simp
    have acc: "accumulatedBufferLength ?st = queuedFrames (audioBufferQueue ?st)"
      and sr: "sampleRate ?st = sr"
      using inv by simp_all
    from handle_valid [OF x(2) acc, of now]
    obtain k where k: "audioBufferQueue (handleNewLyriaAudioBuffer now (Some x) ?st)
             = drop k (audioBufferQueue ?st @ [x])"
      "\<forall>j<k. real_of_int (queuedFrames (drop j (audioBufferQueue ?st @ [x]))) / sr
                 > maxBufferDurationSecs"
      unfolding sr by blast
    have "\<exists>k. audioBufferQueue (handleNewLyriaAudioBuffer now (Some x) ?st)
               = drop k (audioBufferQueue ?st @ [x])
            \<and> (\<forall>j<k. real_of_int (queuedFrames (drop j (audioBufferQueue ?st @ [x]))) / sr
                        > maxBufferDurationSecs)"
      using k by blast
    moreover have "real_of_int (queuedFrames (audioBufferQueue
            (handleNewLyriaAudioBuffer now (Some x) ?st))) / sr \<le> maxBufferDurationSecs"
      "accumulatedBufferLength (handleNewLyriaAudioBuffer now (Some x) ?st)
         = queuedFrames (audioBufferQueue (handleNewLyriaAudioBuffer now (Some x) ?st))"
      using inv' unfolding x(1) by blast+
    ultimately show ?thesis
      unfolding tail unfolding x(1) by blast
  qed
qed

theorem sliding_window_cap_witness:
  "(0::real) < 44100
   \<and> audioBufferQueue (sessionAfter 44100 [(0, Some (chunk 44100)), (100, Some (chunk 22050))])
       = [chunk 44100, chunk 22050]
   \<and> audioBufferQueue (handleNewLyriaAudioBuffer 700 (Some (chunk 33075))
         (sessionAfter 44100 [(0, Some (chunk 44100)), (100, Some (chunk 22050))]))
       = [chunk 22050, chunk 33075]
   \<and> real_of_int (queuedFrames (audioBufferQueue
         (handleNewLyriaAudioBuffer 700 (Some (chunk 33075))
            (sessionAfter 44100 [(0, Some (chunk 44100)), (100, Some (chunk 22050))])))) / 44100
        \<le> maxBufferDurationSecs
   \<and> accumulatedBufferLength (handleNewLyriaAudioBuffer 700 (Some (chunk 33075))
         (sessionAfter 44100 [(0, Some (chunk 44100)), (100, Some (chunk 22050))]))
       = queuedFrames (audioBufferQueue (handleNewLyriaAudioBuffer 700 (Some (chunk 33075))
           (sessionAfter 44100 [(0, Some (chunk 44100)), (100, Some (chunk 22050))])))"
proof -
  have pos: "(0::real) < 44100" by simp
  have before: "audioBufferQueue (sessionAfter 44100 [(0, Some (chunk 44100)), (100, Some (chunk 22050))])
       = [chunk 44100, chunk 22050]"
    by (simp add: sessionAfter_def handleNewLyriaAudioBuffer_def newSession_def chunk_def
        maxBufferDurationSecs_def analysisIntervalMs_def Let_def)
  have after: "audioBufferQueue (handleNewLyriaAudioBuffer 700 (Some (chunk 33075))
         (sessionAfter 44100 [(0, Some (chunk 44100)), (100, Some (chunk 22050))]))
       = [chunk 22050, chunk 33075]"
    by (simp add: sessionAfter_def handleNewLyriaAudioBuffer_def newSession_def chunk_def
        maxBufferDurationSecs_def analysisIntervalMs_def Let_def)
  note t = sliding_window_cap [OF pos, of 700 "Some (chunk 33075)"
        "[(0, Some (chunk 44100)), (100, Some (chunk 22050))]"]
  from t have cap: "real_of_int (queuedFrames (audioBufferQueue
         (handleNewLyriaAudioBuffer 700 (Some (chunk 33075))
            (sessionAfter 44100 [(0, Some (chunk 44100)), (100, Some (chunk 22050))])))) / 44100
        \<le> maxBufferDurationSecs"
    by (rule conjunct1)
  from t have book: "accumulatedBufferLength (handleNewLyriaAudioBuffer 700 (Some (chunk 33075))
         (sessionAfter 44100 [(0, Some (chunk 44100)), (100, Some (chunk 22050))]))
       = queuedFrames (audioBufferQueue (handleNewLyriaAudioBuffer 700 (Some (chunk 33075))
           (sessionAfter 44100 [(0, Some (chunk 44100)), (100, Some (chunk 22050))])))"
    by blast
  from pos before after cap book show ?thesis by blast
qed

section \<open>Properties of the feature extractor\<close>

text \<open>
  C4. For a null input buffer and for a buffer of length zero, \<open>analyzeRealTimeContext\<close>
  returns (it does not throw, and does not reach the analyser) the default snapshot:
  energy 0, beat density 0, onsets \<open>[false]\<close>, key and scale undefined, no dominant
  frequencies. The analyzer's state is left as it was.
\<close>

theorem degenerate_buffer_default:
  assumes "inputBuffer = None \<or> (\<exists>buf. inputBuffer = Some buf \<and> frames buf = 0)"
  shows "analyzeRealTimeContext sr route now nowAfter inputBuffer st
           = (Inr (defaultContext now), st)
     \<and> energy (defaultContext now) = Some 0
     \<and> beatDensity (defaultContext now) = Some 0
     \<and> onsets (defaultContext now) = Some [False]
     \<and> key (defaultContext now) = None
     \<and> scale (defaultContext now) = None
     \<and> dominantFrequencies (defaultContext now) = Some []"
  using assms by (auto simp: analyzeRealTimeContext_def defaultContext_def)

theorem degenerate_buffer_default_witness:
  "analyzeRealTimeContext 48000 failingRoute 5 9 None newAnalyzer
     = (Inr (defaultContext 5), newAnalyzer)
   \<and> frames (chunk 0) = 0
   \<and> analyzeRealTimeContext 48000 failingRoute 5 9 (Some (chunk 0)) newAnalyzer
     = (Inr (defaultContext 5), newAnalyzer)
   \<and> energy (defaultContext 5) = Some 0
   \<and> onsets (defaultContext 5) = Some [False]"
proof -
  have z: "frames (chunk 0) = 0" by (simp add: chunk_def)
  have h1: "(None :: AudioBuffer option) = None \<or> (\<exists>buf. None = Some buf \<and> frames buf = 0)"
    by simp
  have h2: "Some (chunk 0) = None \<or> (\<exists>buf. Some (chunk 0) = Some buf \<and> frames buf = 0)"
    using z by simp
  show ?thesis
    using degenerate_buffer_default [OF h1, of 48000 failingRoute 5 9 newAnalyzer]
      degenerate_buffer_default [OF h2, of 48000 failingRoute 5 9 newAnalyzer] z
    by simp
qed

lemma frequencyBinCount_pos: "0 < frequencyBinCount"
  by (simp add: frequencyBinCount_def fftSize_def)

lemma length_frequencyData: "length (frequencyData reading) = frequencyBinCount"
  by (simp add: frequencyData_def)

lemma float32Limit_pos: "0 < float32Limit"
  by (simp add: float32Limit_def)

text \<open>
  The clamp by \<open>Math.min\<close> and \<open>Math.max\<close> passes \<open>NaN\<close> through; with the \<open>isNaN\<close> test it
  yields a finite number in \<open>[0, 1]\<close> for every raw density.
\<close>

lemma guarded_clamp:
  "\<exists>d. (if isNaN (mathMin (Num 1) (mathMax (Num 0) raw)) then Num 0
         else mathMin (Num 1) (mathMax (Num 0) raw)) = Num d \<and> 0 \<le> d \<and> d \<le> 1"
  by (cases raw) (auto simp: mathMin_def mathMax_def isNaN_def)

lemma unguarded_clamp_NaN: "mathMin (Num 1) (mathMax (Num 0) NaN) = NaN"
  by (simp add: mathMin_def mathMax_def isNaN_def)

lemma detect_unfold:
  "density (fst (detectOnsetsAndDensity reading st)) =
     (let spectralFlux = spectralFluxOf (\<lambda>i. toLinear (floatFrequencyData reading i))
                           (prevSpectrum st);
          pushed = spectralFluxHistory st @ [spectralFlux];
          history = (if length pushed > FLUX_HISTORY_SIZE then tl pushed else pushed)
      in if length history = 0 then Num 0
         else
           (let meanFlux = numDiv (foldl (\<lambda>s v. numAdd s v) (Num 0) history)
                             (Num (real (length history)));
                beatDensityDenominator = numAdd meanFlux (Num (1 / 1000000));
                rawDensity =
                  (if beatDensityDenominator = Num 0 then Num 0
                   else numDiv (numSub (numDiv spectralFlux beatDensityDenominator) (Num 1))
                          (Num 5));
                beatDensity = mathMin (Num 1) (mathMax (Num 0) rawDensity)
            in if isNaN beatDensity then Num 0 else beatDensity))"
  "prevSpectrum (snd (detectOnsetsAndDensity reading st))
     = (\<lambda>i. toLinear (floatFrequencyData reading i))"
  "spectralFluxHistory (snd (detectOnsetsAndDensity reading st)) =
     (let spectralFlux = spectralFluxOf (\<lambda>i. toLinear (floatFrequencyData reading i))
                           (prevSpectrum st);
          pushed = spectralFluxHistory st @ [spectralFlux]
      in if length pushed > FLUX_HISTORY_SIZE then tl pushed else pushed)"
  by (simp_all add: detectOnsetsAndDensity_def Let_def del: One_nat_def)

lemma density_bounds:
  "\<exists>d. density (fst (detectOnsetsAndDensity reading st)) = Num d \<and> 0 \<le> d \<and> d \<le> 1"
proof -
  let ?flux = "spectralFluxOf (\<lambda>i. toLinear (floatFrequencyData reading i)) (prevSpectrum st)"
  let ?pushed = "spectralFluxHistory st @ [?flux]"
  let ?history = "if length ?pushed > FLUX_HISTORY_SIZE then tl ?pushed else ?pushed"
  show ?thesis
  proof (cases "length ?history = 0")
    case True
    have "density (fst (detectOnsetsAndDensity reading st)) = Num 0"
      by (simp only: detect_unfold(1) Let_def True) simp
    then show ?thesis by simp
  next
    case False
    show ?thesis
      by (simp only: detect_unfold(1) Let_def False if_False) (rule guarded_clamp)
  qed
qed

lemma foldl_add_bytes:
  "foldl (\<lambda>s v. numAdd s (Num (real v))) (Num a) xs = Num (a + real (sum_list xs))"
  by (induction xs arbitrary: a) simp_all

lemma calculateEnergy_value:
  "calculateEnergy reading =
     Num (min (real (sum_list (frequencyData reading)) / real frequencyBinCount / 128) 1)"
proof -
  have n: "real frequencyBinCount \<noteq> 0" using frequencyBinCount_pos by simp
  show ?thesis
    unfolding calculateEnergy_def Let_def length_frequencyData
    using n foldl_add_bytes [of 0 "frequencyData reading"]
    by (simp add: mathMin_def isNaN_def min_def)
qed

lemma calculateEnergy_bounds:
  "\<exists>e. calculateEnergy reading = Num e \<and> 0 \<le> e \<and> e \<le> 1"
  by (simp add: calculateEnergy_value)

lemma calculateEnergy_silent:
  assumes "\<forall>i<frequencyBinCount. byteFrequencyData reading i = 0"
  shows "calculateEnergy reading = Num 0"
proof -
  have "frequencyData reading = map (\<lambda>i. 0) [0..<frequencyBinCount]"
    using assms by (simp add: frequencyData_def)
  then have "sum_list (frequencyData reading) = 0" by simp
  then show ?thesis by (simp only: calculateEnergy_value) simp
qed

lemma toLinear_nonNegative: "nonNegative (toLinear d)"
proof (cases d)
  case NegInfinity
  then show ?thesis by (simp add: toLinear_def)
next
  case (Finite x)
  have "0 < (10::real) powr (x / 20)" by simp
  then have "\<not> 10 powr (x / 20) \<le> - float32Limit"
    using float32Limit_pos by linarith
  then show ?thesis
    using Finite by (simp add: toLinear_def)
qed

lemma add_positive_nonNegative:
  "nonNegative a \<Longrightarrow> numLess (Num 0) d \<Longrightarrow> nonNegative (numAdd a d)"
  by (cases a; cases d) simp_all

lemma flux_fold_nonNegative:
  "nonNegative a \<Longrightarrow>
   nonNegative (foldl (\<lambda>flux i. let diff = numSub (cur i) (prev i)
                                  in if numLess (Num 0) diff then numAdd flux diff else flux)
                  a is)"
  by (induction "is" arbitrary: a) (simp_all add: Let_def add_positive_nonNegative)

lemma flux_unchanged:
  "\<forall>i\<in>set is. \<not> numLess (Num 0) (numSub (cur i) (prev i)) \<Longrightarrow>
   foldl (\<lambda>flux i. let diff = numSub (cur i) (prev i)
                     in if numLess (Num 0) diff then numAdd flux diff else flux) a is = a"
  by (induction "is" arbitrary: a) (simp_all add: Let_def)

lemma zero_minus_nonNegative:
  "nonNegative p \<Longrightarrow> \<not> numLess (Num 0) (numSub (Num 0) p)"
  by (cases p) (simp_all add: numSub_def)

lemma sum_nonNegative:
  "nonNegative a \<Longrightarrow> \<forall>f\<in>set h. nonNegative f \<Longrightarrow>
   nonNegative (foldl (\<lambda>s v. numAdd s v) a h)"
proof (induction h arbitrary: a)
  case Nil
  then show ?case by simp
next
  case (Cons f h)
  have "nonNegative (numAdd a f)"
    using Cons.prems by (cases a; cases f) simp_all
  then show ?case using Cons by simp
qed

lemma zero_flux_density:
  assumes "nonNegative mean"
  shows "(let denominator = numAdd mean (Num (1 / 1000000));
              rawDensity = (if denominator = Num 0 then Num 0
                            else numDiv (numSub (numDiv (Num 0) denominator) (Num 1)) (Num 5));
              beatDensity = mathMin (Num 1) (mathMax (Num 0) rawDensity)
          in if isNaN beatDensity then Num 0 else beatDensity) = Num 0"
  using assms
  by (cases mean) (simp_all add: Let_def numSub_def mathMin_def mathMax_def isNaN_def)

lemma analyzerAfter_snoc:
  "analyzerAfter (readings @ [reading])
     = snd (detectOnsetsAndDensity reading (analyzerAfter readings))"
  by (simp add: analyzerAfter_def)

lemma spectralFluxOf_nonNegative: "nonNegative (spectralFluxOf cur prev)"
  unfolding spectralFluxOf_def by (rule flux_fold_nonNegative) simp

lemma spectralFluxOf_silent:
  assumes "\<forall>i<frequencyBinCount. cur i = Num 0"
    and "\<forall>i<frequencyBinCount. nonNegative (prev i)"
  shows "spectralFluxOf cur prev = Num 0"
proof -
  have "\<forall>i\<in>set [0..<frequencyBinCount]. \<not> numLess (Num 0) (numSub (cur i) (prev i))"
    using assms zero_minus_nonNegative by simp
  then show ?thesis
    unfolding spectralFluxOf_def by (rule flux_unchanged)
qed

lemma set_tl_subset: "set (tl xs) \<subseteq> set xs"
  by (cases xs) auto

lemma history_subset:
  "set (spectralFluxHistory (snd (detectOnsetsAndDensity reading st)))
     \<subseteq> insert (spectralFluxOf (\<lambda>i. toLinear (floatFrequencyData reading i)) (prevSpectrum st))
         (set (spectralFluxHistory st))"
proof -
  let ?pushed = "spectralFluxHistory st
      @ [spectralFluxOf (\<lambda>i. toLinear (floatFrequencyData reading i)) (prevSpectrum st)]"
  have "set (if length ?pushed > FLUX_HISTORY_SIZE then tl ?pushed else ?pushed) \<subseteq> set ?pushed"
    using set_tl_subset [of ?pushed] by (cases "length ?pushed > FLUX_HISTORY_SIZE") simp_all
  then have "set (spectralFluxHistory (snd (detectOnsetsAndDensity reading st))) \<subseteq> set ?pushed"
    by (simp only: detect_unfold(3) Let_def)
  then show ?thesis by auto
qed

lemma analyzerAfter_nonNegative:
  "(\<forall>i. nonNegative (prevSpectrum (analyzerAfter readings) i))
   \<and> (\<forall>f\<in>set (spectralFluxHistory (analyzerAfter readings)). nonNegative f)"
proof (induction readings rule: rev_induct)
  case Nil
  then show ?case by (simp add: analyzerAfter_def newAnalyzer_def)
next
  case (snoc r rs)
  have "\<forall>f\<in>set (spectralFluxHistory (snd (detectOnsetsAndDensity r (analyzerAfter rs)))).
          nonNegative f"
    using history_subset [of r "analyzerAfter rs"] snoc.IH spectralFluxOf_nonNegative
    by blast
  then show ?case
    by (simp add: analyzerAfter_snoc detect_unfold(2) toLinear_nonNegative)
qed

lemma mean_nonNegative:
  assumes "\<forall>f\<in>set h. nonNegative f" and "h \<noteq> []"
  shows "nonNegative (numDiv (foldl (\<lambda>s v. numAdd s v) (Num 0) h) (Num (real (length h))))"
proof -
  have s: "nonNegative (foldl (\<lambda>s v. numAdd s v) (Num 0) h)"
    using assms(1) by (intro sum_nonNegative) simp_all
  have "0 < real (length h)" using assms(2) by simp
  then show ?thesis
    using s by (cases "foldl (\<lambda>s v. numAdd s v) (Num 0) h") simp_all
qed

lemma density_silent:
  assumes cur: "\<forall>i<frequencyBinCount. toLinear (floatFrequencyData reading i) = Num 0"
    and prev: "\<forall>i<frequencyBinCount. nonNegative (prevSpectrum st i)"
    and hist: "\<forall>f\<in>set (spectralFluxHistory st). nonNegative f"
  shows "density (fst (detectOnsetsAndDensity reading st)) = Num 0"
proof -
  let ?flux = "spectralFluxOf (\<lambda>i. toLinear (floatFrequencyData reading i)) (prevSpectrum st)"
  let ?pushed = "spectralFluxHistory st @ [?flux]"
  let ?history = "if length ?pushed > FLUX_HISTORY_SIZE then tl ?pushed else ?pushed"
  have flux: "?flux = Num 0"
    using cur prev by (intro spectralFluxOf_silent) simp_all
  show ?thesis
  proof (cases "length ?history = 0")
    case True
    show ?thesis
      by (simp only: detect_unfold(1) Let_def True) simp
  next
    case False
    have sub: "set ?history \<subseteq> set ?pushed"
      using set_tl_subset [of ?pushed] by (cases "length ?pushed > FLUX_HISTORY_SIZE") simp_all
    have "\<forall>f\<in>set ?pushed. nonNegative f"
      using hist flux by simp
    then have all: "\<forall>f\<in>set ?history. nonNegative f"
      using sub by blast
    have ne: "?history \<noteq> []" using False by simp
    note mean = mean_nonNegative [OF all ne]
    have "density (fst (detectOnsetsAndDensity reading st)) =
        (let denominator = numAdd (numDiv (foldl (\<lambda>s v. numAdd s v) (Num 0) ?history)
                                      (Num (real (length ?history)))) (Num (1 / 1000000));
             rawDensity = (if denominator = Num 0 then Num 0
                           else numDiv (numSub (numDiv (Num 0) denominator) (Num 1)) (Num 5));
             beatDensity = mathMin (Num 1) (mathMax (Num 0) rawDensity)
         in if isNaN beatDensity then Num 0 else beatDensity)"
      by (simp only: detect_unfold(1) Let_def False if_False) (simp only: flux)
    also have "\<dots> = Num 0"
      by (rule zero_flux_density [OF mean])
    finally show ?thesis .
  qed
qed

text \<open>
  A finite decibel value whose linear magnitude does not fit a 32-bit float: the stored
  magnitude, the flux and its mean are \<open>Infinity\<close>, the raw density is
  \<open>Infinity / Infinity\<close>, and the result is 0 through the \<open>isNaN\<close> test.
\<close>

lemma toLinear_800: "toLinear (Finite 800) = PosInf"
proof -
  have "(10::real) powr (800 / 20) = 10 ^ 40"
    by (simp add: powr_realpow [symmetric])
  moreover have "float32Limit \<le> (10::real) ^ 40"
    by (simp add: float32Limit_def)
  ultimately show ?thesis
    by (simp add: toLinear_def)
qed

lemma overflow_flux:
  "spectralFluxOf (\<lambda>i. toLinear (floatFrequencyData overflowReading i))
     (prevSpectrum newAnalyzer) = PosInf"
proof -
  let ?cur = "\<lambda>i. toLinear (floatFrequencyData overflowReading i)"
  let ?prev = "prevSpectrum newAnalyzer"
  have upt: "[0..<frequencyBinCount] = 0 # [1..<frequencyBinCount]"
    using frequencyBinCount_pos by (simp add: upt_conv_Cons)
  have rest: "\<forall>i\<in>set [1..<frequencyBinCount]. \<not> numLess (Num 0) (numSub (?cur i) (?prev i))"
    by (simp add: overflowReading_def newAnalyzer_def toLinear_def numSub_def)
  have head: "numSub (?cur 0) (?prev 0) = PosInf"
    by (simp add: overflowReading_def newAnalyzer_def toLinear_800 numSub_def)
  have "spectralFluxOf ?cur ?prev =
      foldl (\<lambda>flux i. let diff = numSub (?cur i) (?prev i)
                       in if numLess (Num 0) diff then numAdd flux diff else flux)
        PosInf [1..<frequencyBinCount]"
    unfolding spectralFluxOf_def upt by (simp add: head Let_def del: upt_Suc)
  also have "\<dots> = PosInf"
    using rest by (rule flux_unchanged)
  finally show ?thesis .
qed

lemma density_overflow:
  "density (fst (detectOnsetsAndDensity overflowReading newAnalyzer)) = Num 0"
proof -
  have h: "spectralFluxHistory newAnalyzer = []"
    by (simp add: newAnalyzer_def)
  show ?thesis
    by (simp only: detect_unfold(1) Let_def overflow_flux h)
       (simp add: FLUX_HISTORY_SIZE_def numSub_def mathMin_def mathMax_def isNaN_def)
qed

lemma overflow_raw_density:
  "numDiv (numSub (numDiv PosInf (numAdd (numDiv PosInf (Num 1)) (Num (1 / 1000000)))) (Num 1))
     (Num 5) = NaN"
  by (simp add: numSub_def)

text \<open>The reals that the snapshot hands on are the numbers computed, not substitutes.\<close>

lemma snapshot_values_exact:
  "Num (finiteValue (calculateEnergy reading)) = calculateEnergy reading"
  "Num (finiteValue (density (fst (detectOnsetsAndDensity reading st))))
     = density (fst (detectOnsetsAndDensity reading st))"
proof -
  obtain e where "calculateEnergy reading = Num e"
    using calculateEnergy_bounds by blast
  then show "Num (finiteValue (calculateEnergy reading)) = calculateEnergy reading"
    by simp
  obtain d where "density (fst (detectOnsetsAndDensity reading st)) = Num d"
    using density_bounds by blast
  then show "Num (finiteValue (density (fst (detectOnsetsAndDensity reading st))))
     = density (fst (detectOnsetsAndDensity reading st))"
    by simp
qed

text \<open>
  C7. For every analyser reading (byte magnitudes; decibel values that are finite or
  \<open>-Infinity\<close>) and every analyzer state, the energy and the beat density are finite
  numbers in \<open>[0, 1]\<close>: neither is \<open>NaN\<close> or an infinity. When every byte magnitude is zero
  the energy is 0, and when every bin has linear magnitude zero the beat density is 0,
  whatever readings the analyzer has seen before.
\<close>

theorem energy_and_density_bounds:
  "(\<exists>e. calculateEnergy reading = Num e \<and> 0 \<le> e \<and> e \<le> 1)
   \<and> (\<exists>d. density (fst (detectOnsetsAndDensity reading st)) = Num d \<and> 0 \<le> d \<and> d \<le> 1)
   \<and> ((\<forall>i<frequencyBinCount. byteFrequencyData reading i = 0) \<longrightarrow>
         calculateEnergy reading = Num 0)
   \<and> ((\<forall>i<frequencyBinCount. toLinear (floatFrequencyData reading i) = Num 0) \<longrightarrow>
         density (fst (detectOnsetsAndDensity reading (analyzerAfter readings))) = Num 0)"
  using calculateEnergy_bounds [of reading] density_bounds [of reading st]
    calculateEnergy_silent [of reading]
    density_silent [of reading "analyzerAfter readings"]
    analyzerAfter_nonNegative [of readings]
  by blast

theorem energy_and_density_bounds_witness:
  "calculateEnergy silentReading = Num 0
   \<and> density (fst (detectOnsetsAndDensity silentReading
                     (analyzerAfter [loudReading, overflowReading, silentReading]))) = Num 0
   \<and> (\<exists>e. calculateEnergy loudReading = Num e \<and> 0 \<le> e \<and> e \<le> 1)
   \<and> (\<exists>d. density (fst (detectOnsetsAndDensity overflowReading newAnalyzer)) = Num d
          \<and> 0 \<le> d \<and> d \<le> 1)
   \<and> density (fst (detectOnsetsAndDensity overflowReading newAnalyzer)) = Num 0"
proof -
  have b: "\<forall>i<frequencyBinCount. byteFrequencyData silentReading i = 0"
    by (simp add: silentReading_def)
  have f: "\<forall>i<frequencyBinCount. toLinear (floatFrequencyData silentReading i) = Num 0"
    by (simp add: silentReading_def toLinear_def)
  show ?thesis
    using energy_and_density_bounds [of silentReading newAnalyzer
        "[loudReading, overflowReading, silentReading]"]
      energy_and_density_bounds [of loudReading newAnalyzer "[]"]
      energy_and_density_bounds [of overflowReading newAnalyzer "[]"]
      b f density_overflow
    by blast
qed

end
